theory Spec2Isabelle
  imports Complex_Main "HOL-Library.Sublist"
begin

section \<open>Text\<close>

text \<open>
  Python strings are modelled as \<^typ>\<open>string\<close>, holding the UTF-8 bytes of the text.
  Equality of texts is equality of their byte lists, and a test for an ASCII substring
  gives the same answer on the bytes as on the code points. The three coloured circles
  of the alert levels are outside ASCII and are written as their four bytes.
\<close>

definition red_circle :: string where
  "red_circle = [CHR 0xF0, CHR 0x9F, CHR 0x94, CHR 0xB4]"

definition yellow_circle :: string where
  "yellow_circle = [CHR 0xF0, CHR 0x9F, CHR 0x9F, CHR 0xA1]"

definition green_circle :: string where
  "green_circle = [CHR 0xF0, CHR 0x9F, CHR 0x9F, CHR 0xA2]"

text \<open>
  \<^verbatim>\<open>str.lower()\<close> on ASCII text: the letters A to Z get bit 5 set, every other byte
  stays. Labels are taken to be ASCII, as the label vocabulary of the detector is; the
  case mapping of Python for letters outside ASCII is not modelled.
\<close>

fun lower_char :: "char \<Rightarrow> char" where
  "lower_char (Char b0 b1 b2 b3 b4 b5 b6 b7) =
     (let n = (of_char (Char b0 b1 b2 b3 b4 b5 b6 b7) :: nat)
      in if 65 \<le> n \<and> n \<le> 90 then Char b0 b1 b2 b3 b4 True b6 b7
         else Char b0 b1 b2 b3 b4 b5 b6 b7)"

definition lower :: "string \<Rightarrow> string" where
  "lower s = map lower_char s"

text \<open>The test \<^verbatim>\<open>w in label\<close> of Python on two strings: \<open>w\<close> occurs in \<open>label\<close>
  as a contiguous run.\<close>

fun starts_with :: "string \<Rightarrow> string \<Rightarrow> bool" where
  "starts_with [] s = True"
| "starts_with (c # w) [] = False"
| "starts_with (c # w) (d # s) = (c = d \<and> starts_with w s)"

fun str_in :: "string \<Rightarrow> string \<Rightarrow> bool" where
  "str_in w [] = (w = [])"
| "str_in w (c # s) = (starts_with w (c # s) \<or> str_in w s)"

text \<open>\<^verbatim>\<open>str.split()\<close> with no argument: the maximal runs of characters that are not
  white space, in order; no empty piece.\<close>

definition is_space :: "char \<Rightarrow> bool" where
  "is_space c = (let n = (of_char c :: nat) in (9 \<le> n \<and> n \<le> 13) \<or> (28 \<le> n \<and> n \<le> 32))"

fun split_from :: "string \<Rightarrow> string \<Rightarrow> string list" where
  "split_from [] cur = (if cur = [] then [] else [cur])"
| "split_from (c # s) cur =
     (if is_space c then (if cur = [] then split_from s [] else cur # split_from s [])
      else split_from s (cur @ [c]))"

definition split :: "string \<Rightarrow> string list" where
  "split s = split_from s []"

section \<open>Data model\<close>

text \<open>
  A Python float is only stored and copied by the functions modelled here (no
  arithmetic, no comparison), so it is carried as a \<^typ>\<open>real\<close>. An image is opaque:
  a type parameter.
\<close>

record bbox =
  xmin :: int
  ymin :: int
  xmax :: int
  ymax :: int

text \<open>One item of the object detector's output.\<close>

record result =
  label :: string
  score :: real
  box :: bbox

text \<open>One value of the dictionary \<^verbatim>\<open>WEAPON_SEVERITY\<close>.\<close>

record severity_entry =
  severity :: string
  alert_level :: string
  risk :: string

text \<open>One element of \<^verbatim>\<open>detected_weapons\<close>.\<close>

record detection =
  weapon :: string
  confidence :: real
  box :: bbox
  severity :: string
  alert_level :: string
  risk :: string

definition WEAPON_SEVERITY :: "string \<rightharpoonup> severity_entry" where
  "WEAPON_SEVERITY = map_of
    [(''gun'', \<lparr>severity_entry.severity = ''SERIOUS-URGENT'',
        severity_entry.alert_level = red_circle @ '' Red'', severity_entry.risk = ''High''\<rparr>),
     (''pistol'', \<lparr>severity_entry.severity = ''SERIOUS-URGENT'',
        severity_entry.alert_level = red_circle @ '' Red'', severity_entry.risk = ''High''\<rparr>),
     (''rifle'', \<lparr>severity_entry.severity = ''SERIOUS-URGENT'',
        severity_entry.alert_level = red_circle @ '' Red'', severity_entry.risk = ''High''\<rparr>),
     (''knife'', \<lparr>severity_entry.severity = ''SERIOUS'',
        severity_entry.alert_level = yellow_circle @ '' Yellow'', severity_entry.risk = ''Medium''\<rparr>),
     (''machete'', \<lparr>severity_entry.severity = ''SERIOUS'',
        severity_entry.alert_level = yellow_circle @ '' Yellow'', severity_entry.risk = ''Medium''\<rparr>),
     (''sword'', \<lparr>severity_entry.severity = ''SERIOUS'',
        severity_entry.alert_level = yellow_circle @ '' Yellow'', severity_entry.risk = ''Medium''\<rparr>),
     (''stick'', \<lparr>severity_entry.severity = ''LOW'',
        severity_entry.alert_level = green_circle @ '' Green'', severity_entry.risk = ''Low''\<rparr>),
     (''stone'', \<lparr>severity_entry.severity = ''LOW'',
        severity_entry.alert_level = green_circle @ '' Green'', severity_entry.risk = ''Low''\<rparr>),
     (''club'', \<lparr>severity_entry.severity = ''LOW'',
        severity_entry.alert_level = green_circle @ '' Green'', severity_entry.risk = ''Low''\<rparr>)]"

section \<open>Effects\<close>

text \<open>
  What a function shows to the user or asks of the model library is recorded as a
  trace, returned beside the function's value: \<open>StError\<close> is a call of
  \<^verbatim>\<open>st.error\<close> with its message, \<open>PipelineCall\<close> a call of \<^verbatim>\<open>pipeline\<close> with the
  task and the model name. An exception is the text \<^verbatim>\<open>str(e)\<close> of it.
\<close>

datatype effect = StError string | PipelineCall string string

type_synonym exn = string

section \<open>Weapon classifier\<close>

definition weapon_keywords :: "string list" where
  "weapon_keywords = [''knife'', ''gun'', ''pistol'', ''rifle'', ''stick'', ''baseball bat'']"

text \<open>The condition of the inner loop:
  \<^verbatim>\<open>weapon in label or any(w in label for w in weapon.split())\<close>.\<close>

definition keyword_matches :: "string \<Rightarrow> string \<Rightarrow> bool" where
  "keyword_matches kw lbl = (str_in kw lbl \<or> list_ex (\<lambda>w. str_in w lbl) (split kw))"

text \<open>The inner loop \<^verbatim>\<open>for weapon in weapon_keywords\<close> over the keywords still to
  visit, with the list \<^verbatim>\<open>detected_weapons\<close> built so far.\<close>

fun scan_keywords :: "result \<Rightarrow> string \<Rightarrow> string list \<Rightarrow> detection list \<Rightarrow> detection list" where
  "scan_keywords r lbl [] detected_weapons = detected_weapons"
| "scan_keywords r lbl (weapon_type # ws) detected_weapons =
     (if keyword_matches weapon_type lbl then
        (case WEAPON_SEVERITY weapon_type of
           Some e \<Rightarrow> scan_keywords r lbl ws (detected_weapons @
             [\<lparr>weapon = weapon_type, confidence = score r, detection.box = result.box r,
               detection.severity = severity_entry.severity e,
               detection.alert_level = severity_entry.alert_level e,
               detection.risk = severity_entry.risk e\<rparr>])
         | None \<Rightarrow> scan_keywords r lbl ws detected_weapons)
      else scan_keywords r lbl ws detected_weapons)"

text \<open>The outer loop \<^verbatim>\<open>for result in results\<close>.\<close>

fun scan_results :: "result list \<Rightarrow> detection list \<Rightarrow> detection list" where
  "scan_results [] detected_weapons = detected_weapons"
| "scan_results (r # rs) detected_weapons =
     scan_results rs (scan_keywords r (lower (label r)) weapon_keywords detected_weapons)"

text \<open>
  \<^verbatim>\<open>detect_weapons(image, object_detector)\<close>. The detector is \<open>None\<close> or a callable
  that returns its output list or raises; a raise is caught, reported with
  \<^verbatim>\<open>st.error\<close>, and the result is the empty list.
\<close>

definition detect_weapons ::
  "'img \<Rightarrow> ('img \<Rightarrow> exn + result list) option \<Rightarrow> detection list \<times> effect list" where
  "detect_weapons im object_detector =
     (case object_detector of
        None \<Rightarrow> ([], [])
      | Some detector \<Rightarrow>
          (case detector im of
             Inl e \<Rightarrow> ([], [StError (''Error in weapon detection: '' @ e)])
           | Inr results \<Rightarrow> (scan_results results [], [])))"

section \<open>Threat aggregator\<close>

definition analyze_threat_level :: "detection list \<Rightarrow> 'sa \<Rightarrow> string \<times> string \<times> string" where
  "analyze_threat_level detected_weapons sentiment_analyzer =
     (if detected_weapons = [] then
        (green_circle @ '' Green'', ''LOW'', ''No immediate threat detected'')
      else
        (let risk_levels = map detection.risk detected_weapons
         in if ''High'' \<in> set risk_levels then
              (red_circle @ '' Red'', ''SERIOUS-URGENT'',
               ''Immediate action required - High-risk weapons detected'')
            else if ''Medium'' \<in> set risk_levels then
              (yellow_circle @ '' Yellow'', ''SERIOUS'',
               ''Caution advised - Medium-risk weapons detected'')
            else
              (green_circle @ '' Green'', ''LOW'',
               ''Monitor situation - Low-risk items detected'')))"

section \<open>Model loader\<close>

text \<open>
  \<^verbatim>\<open>load_models()\<close>. The library function \<^verbatim>\<open>pipeline(task, model=name)\<close> is a
  parameter: it returns a model object or raises. Both calls are inside one
  \<^verbatim>\<open>try\<close>, so the second call is not made when the first raises. The decorator
  \<^verbatim>\<open>st.cache_resource\<close> (the value is computed once per process) is not modelled.
\<close>

definition load_models ::
  "(string \<Rightarrow> string \<Rightarrow> exn + 'm) \<Rightarrow> ('m option \<times> 'm option) \<times> effect list" where
  "load_models pipeline =
     (case pipeline ''object-detection'' ''facebook/detr-resnet-50'' of
        Inl e \<Rightarrow>
          ((None, None),
           [PipelineCall ''object-detection'' ''facebook/detr-resnet-50'',
            StError (''Error loading models: '' @ e)])
      | Inr object_detector \<Rightarrow>
          (case pipeline ''sentiment-analysis''
                  ''distilbert-base-uncased-finetuned-sst-2-english'' of
             Inl e \<Rightarrow>
               ((None, None),
                [PipelineCall ''object-detection'' ''facebook/detr-resnet-50'',
                 PipelineCall ''sentiment-analysis''
                   ''distilbert-base-uncased-finetuned-sst-2-english'',
                 StError (''Error loading models: '' @ e)])
           | Inr sentiment_analyzer \<Rightarrow>
               ((Some object_detector, Some sentiment_analyzer),
                [PipelineCall ''object-detection'' ''facebook/detr-resnet-50'',
                 PipelineCall ''sentiment-analysis''
                   ''distilbert-base-uncased-finetuned-sst-2-english''])))"

section \<open>Clock and time formats\<close>

record datetime =
  year :: nat
  month :: nat
  day :: nat
  hour :: nat
  minute :: nat
  second :: nat
  microsecond :: nat

definition digit_char :: "nat \<Rightarrow> char" where
  "digit_char n = ''0123456789'' ! (n mod 10)"

fun decimal :: "nat \<Rightarrow> string" where
  "decimal n = (if n < 10 then [digit_char n] else decimal (n div 10) @ [digit_char n])"

declare decimal.simps [simp del]

definition zfill :: "nat \<Rightarrow> string \<Rightarrow> string" where
  "zfill width s = replicate (width - length s) (CHR ''0'') @ s"

text \<open>
  \<^verbatim>\<open>datetime.strftime(fmt)\<close> for the directives the program uses, and \<^verbatim>\<open>%f\<close>, the
  one directive that shows the microseconds: year in four digits, the other fields in
  two, each padded with zeros; any other character of the format is copied.
\<close>

definition directive :: "char \<Rightarrow> datetime \<Rightarrow> string" where
  "directive c dt =
     (if c = CHR ''Y'' then zfill 4 (decimal (year dt))
      else if c = CHR ''m'' then zfill 2 (decimal (month dt))
      else if c = CHR ''d'' then zfill 2 (decimal (day dt))
      else if c = CHR ''H'' then zfill 2 (decimal (hour dt))
      else if c = CHR ''M'' then zfill 2 (decimal (minute dt))
      else if c = CHR ''S'' then zfill 2 (decimal (second dt))
      else if c = CHR ''f'' then zfill 6 (decimal (microsecond dt))
      else if c = CHR ''%'' then ''%''
      else [CHR ''%'', c])"

fun strftime :: "string \<Rightarrow> datetime \<Rightarrow> string" where
  "strftime [] dt = []"
| "strftime [c] dt = [c]"
| "strftime (c # d # fmt) dt =
     (if c = CHR ''%'' then directive d dt @ strftime fmt dt
      else c # strftime (d # fmt) dt)"

section \<open>Incidents and the session\<close>

record location_data =
  county :: string
  sub_county :: string
  ward :: string
  location :: string
  latitude :: real
  longitude :: real

text \<open>The dictionary \<^verbatim>\<open>st.session_state.analysis_results\<close>.\<close>

record 'img analysis =
  detected_weapons :: "detection list"
  alert_level :: string
  severity :: string
  risk_assessment :: string
  img :: 'img

record incident =
  id' :: string
  timestamp :: string
  detected_weapons :: "detection list"
  alert_level :: string
  severity :: string
  risk_assessment :: string
  location :: location_data
  status :: string
  recommendations :: string

text \<open>
  The session state: the incident list and, between an analysis and the submission that
  follows it, the analysis results (\<open>None\<close> when the key is absent). The key
  \<^verbatim>\<open>current_location\<close> is set to \<^verbatim>\<open>None\<close> at start and never used.
\<close>

record 'img session_state =
  incidents :: "incident list"
  analysis_results :: "'img analysis option"

definition initial_state :: "'img session_state" where
  "initial_state = \<lparr>incidents = [], analysis_results = None\<rparr>"

definition KENYA_COUNTIES :: "string list" where
  "KENYA_COUNTIES =
    [''Mombasa'', ''Kwale'', ''Kilifi'', ''Tana River'', ''Lamu'', ''Taita-Taveta'', ''Garissa'',
     ''Wajir'', ''Mandera'', ''Marsabit'', ''Isiolo'', ''Meru'', ''Tharaka-Nithi'', ''Embu'',
     ''Kitui'', ''Machakos'', ''Makueni'', ''Nyandarua'', ''Nyeri'', ''Kirinyaga'', ''Murang'' @ [CHR 0x27] @ ''a'',
     ''Kiambu'', ''Turkana'', ''West Pokot'', ''Samburu'', ''Trans-Nzoia'', ''Uasin Gishu'',
     ''Elgeyo-Marakwet'', ''Nandi'', ''Baringo'', ''Laikipia'', ''Nakuru'', ''Narok'', ''Kajiado'',
     ''Kericho'', ''Bomet'', ''Kakamega'', ''Vihiga'', ''Bungoma'', ''Busia'', ''Siaya'', ''Kisumu'',
     ''Homa Bay'', ''Migori'', ''Kisii'', ''Nyamira'', ''Nairobi'']"

definition get_recommendations :: "string \<Rightarrow> string" where
  "get_recommendations sev =
     (if sev = ''SERIOUS-URGENT'' then
        ''Immediate dispatch of armed response unit. Establish perimeter. Evacuate civilians if necessary. Contact emergency services.''
      else if sev = ''SERIOUS'' then
        ''Dispatch patrol unit for investigation. Increase surveillance in the area. Consider community alert.''
      else
        ''Monitor situation. Routine patrol check recommended. Document for trend analysis.'')"

text \<open>
  A click on the Analyze button with an uploaded image. \<open>display_ok\<close> says whether
  drawing and showing the annotated image return; when they raise, the run of the script
  ends there and the session state is as before. They are called only when something was
  detected.
\<close>

definition analyze_click ::
  "('img \<Rightarrow> exn + result list) option \<Rightarrow> 'sa \<Rightarrow> 'img \<Rightarrow> bool \<Rightarrow>
   'img session_state \<Rightarrow> 'img session_state" where
  "analyze_click object_detector sentiment_analyzer im display_ok s =
     (let dw = fst (detect_weapons im object_detector);
          aggregated = analyze_threat_level dw sentiment_analyzer
      in if dw \<noteq> [] then
           (if display_ok then
              s\<lparr>analysis_results := Some
                 \<lparr>analysis.detected_weapons = dw,
                  analysis.alert_level = fst aggregated,
                  analysis.severity = fst (snd aggregated),
                  analysis.risk_assessment = snd (snd aggregated),
                  img = im\<rparr>\<rparr>
            else s)
         else
           s\<lparr>analysis_results := Some
              \<lparr>analysis.detected_weapons = dw,
               analysis.alert_level = green_circle @ '' Green'',
               analysis.severity = ''LOW'',
               analysis.risk_assessment = ''No immediate threat detected'',
               img = im\<rparr>\<rparr>)"

text \<open>The incident record built at submission; the clock is read twice, for the id
  and for the time stamp.\<close>

definition make_incident ::
  "'img analysis \<Rightarrow> location_data \<Rightarrow> datetime \<Rightarrow> datetime \<Rightarrow> incident" where
  "make_incident ar loc now_id now_ts =
     \<lparr>id' = ''INC_'' @ strftime ''%Y%m%d_%H%M%S'' now_id,
      timestamp = strftime ''%Y-%m-%d %H:%M:%S'' now_ts,
      incident.detected_weapons = analysis.detected_weapons ar,
      incident.alert_level = analysis.alert_level ar,
      incident.severity = analysis.severity ar,
      incident.risk_assessment = analysis.risk_assessment ar,
      location = loc,
      status = ''Active'',
      recommendations = get_recommendations (analysis.severity ar)\<rparr>"

text \<open>
  A click on the Submit button, which is shown only while the analysis results are in
  the session state. \<open>report_ok\<close> says whether the PDF library returns; when it raises,
  the run ends after the append and the analysis results stay in the session state.
\<close>

definition submit_click ::
  "location_data \<Rightarrow> datetime \<Rightarrow> datetime \<Rightarrow> bool \<Rightarrow> 'img session_state \<Rightarrow> 'img session_state" where
  "submit_click loc now_id now_ts report_ok s =
     (case analysis_results s of
        None \<Rightarrow> s
      | Some ar \<Rightarrow>
          (let s1 = s\<lparr>incidents := incidents s @ [make_incident ar loc now_id now_ts]\<rparr>
           in if report_ok then s1\<lparr>analysis_results := None\<rparr> else s1))"

text \<open>The three filters of the history page, applied one after the other to a copy of
  the incident list; the entry \<^verbatim>\<open>All\<close> of a select box switches its filter off.\<close>

definition apply_filters :: "string \<Rightarrow> string \<Rightarrow> string \<Rightarrow> incident list \<Rightarrow> incident list" where
  "apply_filters filter_county filter_severity filter_status incs =
     (let f0 = incs;
          f1 = (if filter_county \<noteq> ''All''
                then [i \<leftarrow> f0. county (location i) = filter_county] else f0);
          f2 = (if filter_severity \<noteq> ''All''
                then [i \<leftarrow> f1. incident.severity i = filter_severity] else f1);
          f3 = (if filter_status \<noteq> ''All''
                then [i \<leftarrow> f2. status i = filter_status] else f2)
      in f3)"

text \<open>
  One interaction of the user is one run of the script. The pages that only show the
  incidents (dashboard, map, history with its filters, JSON export) read the session
  state and assign nothing to it.
\<close>

datatype 'img event =
    AnalyzeThreat 'img bool
  | SubmitIncident location_data datetime datetime bool
  | ViewDashboard
  | ViewMap
  | ViewHistory string string string
  | ExportJson

fun step ::
  "('img \<Rightarrow> exn + result list) option \<Rightarrow> 'sa \<Rightarrow> 'img event \<Rightarrow>
   'img session_state \<Rightarrow> 'img session_state" where
  "step od sa (AnalyzeThreat im display_ok) s = analyze_click od sa im display_ok s"
| "step od sa (SubmitIncident loc now_id now_ts report_ok) s = submit_click loc now_id now_ts report_ok s"
| "step od sa ViewDashboard s = s"
| "step od sa ViewMap s = s"
| "step od sa (ViewHistory filter_county filter_severity filter_status) s = s"
| "step od sa ExportJson s = s"

text \<open>What the history page lists.\<close>

definition history_page :: "string \<Rightarrow> string \<Rightarrow> string \<Rightarrow> 'img session_state \<Rightarrow> incident list" where
  "history_page filter_county filter_severity filter_status s =
     apply_filters filter_county filter_severity filter_status (incidents s)"

text \<open>The session after a sequence of interactions, from a given state and from the
  initial state.\<close>

definition run_from ::
  "('img \<Rightarrow> exn + result list) option \<Rightarrow> 'sa \<Rightarrow> 'img session_state \<Rightarrow> 'img event list \<Rightarrow>
   'img session_state" where
  "run_from od sa s events = foldl (\<lambda>s e. step od sa e s) s events"

definition run ::
  "('img \<Rightarrow> exn + result list) option \<Rightarrow> 'sa \<Rightarrow> 'img event list \<Rightarrow> 'img session_state" where
  "run od sa events = run_from od sa initial_state events"

section \<open>Notions of the specification\<close>

text \<open>
  The precedence of the risk values, High over Medium over Low, and the outcome that
  belongs to each of them: the two tables the specification speaks of. They are used
  only to state the properties of the aggregator.
\<close>

definition risk_precedence :: "string \<Rightarrow> nat" where
  "risk_precedence r =
     (if r = ''High'' then 3 else if r = ''Medium'' then 2 else if r = ''Low'' then 1 else 0)"

definition risk_outcome :: "string \<rightharpoonup> string \<times> string \<times> string" where
  "risk_outcome = map_of
     [(''High'', (red_circle @ '' Red'', ''SERIOUS-URGENT'',
         ''Immediate action required - High-risk weapons detected'')),
      (''Medium'', (yellow_circle @ '' Yellow'', ''SERIOUS'',
         ''Caution advised - Medium-risk weapons detected'')),
      (''Low'', (green_circle @ '' Green'', ''LOW'',
         ''Monitor situation - Low-risk items detected''))]"

text \<open>Two clock readings in the same calendar second.\<close>

definition same_second :: "datetime \<Rightarrow> datetime \<Rightarrow> bool" where
  "same_second t t' =
     (year t = year t' \<and> month t = month t' \<and> day t = day t' \<and>
      hour t = hour t' \<and> minute t = minute t' \<and> second t = second t')"

section \<open>Auxiliary notions\<close>

text \<open>What one pass of the inner loop appends for one keyword.\<close>

definition keyword_detections :: "result \<Rightarrow> string \<Rightarrow> string \<Rightarrow> detection list" where
  "keyword_detections r lbl weapon_type =
     (if keyword_matches weapon_type lbl then
        (case WEAPON_SEVERITY weapon_type of
           Some e \<Rightarrow>
             [\<lparr>weapon = weapon_type, confidence = score r, detection.box = result.box r,
               detection.severity = severity_entry.severity e,
               detection.alert_level = severity_entry.alert_level e,
               detection.risk = severity_entry.risk e\<rparr>]
         | None \<Rightarrow> [])
      else [])"

text \<open>What the body of the outer loop appends for one item of the detector's output:
  the inner loop run on the empty list.\<close>

definition item_detections :: "result \<Rightarrow> detection list" where
  "item_detections r = scan_keywords r (lower (label r)) weapon_keywords []"

text \<open>The three derived fields of a detection, as a table entry.\<close>

definition table_entry_of :: "detection \<Rightarrow> severity_entry" where
  "table_entry_of d = \<lparr>severity_entry.severity = detection.severity d,
     severity_entry.alert_level = detection.alert_level d,
     severity_entry.risk = detection.risk d\<rparr>"

text \<open>The detection with the item's confidence and box and the table's values for a
  keyword of the table.\<close>

definition table_detection :: "result \<Rightarrow> string \<Rightarrow> detection" where
  "table_detection r k =
     (let e = the (WEAPON_SEVERITY k)
      in \<lparr>weapon = k, confidence = score r, detection.box = result.box r,
          detection.severity = severity_entry.severity e,
          detection.alert_level = severity_entry.alert_level e,
          detection.risk = severity_entry.risk e\<rparr>)"

text \<open>A detection whose derived fields are the table's entry for its keyword.\<close>

definition from_table :: "detection \<Rightarrow> bool" where
  "from_table d = (WEAPON_SEVERITY (weapon d) = Some (table_entry_of d))"

text \<open>Derived fields that are those the aggregator gives for the detections, the
  detections being from the table.\<close>

definition derived_ok :: "detection list \<Rightarrow> string \<Rightarrow> string \<Rightarrow> bool" where
  "derived_ok dw a sv =
     (a = fst (analyze_threat_level dw ()) \<and> sv = fst (snd (analyze_threat_level dw ())) \<and>
      list_all from_table dw)"

text \<open>The invariant of the session: it holds of every stored incident and of the
  analysis results, when present.\<close>

definition session_ok :: "'img session_state \<Rightarrow> bool" where
  "session_ok s =
     (list_all (\<lambda>i. derived_ok (incident.detected_weapons i) (incident.alert_level i)
                   (incident.severity i)) (incidents s) \<and>
      (case analysis_results s of
         None \<Rightarrow> True
       | Some ar \<Rightarrow> derived_ok (analysis.detected_weapons ar) (analysis.alert_level ar)
                     (analysis.severity ar)))"

section \<open>Example data\<close>

definition example_box :: bbox where
  "example_box = \<lparr>xmin = 10, ymin = 20, xmax = 110, ymax = 220\<rparr>"

definition example_stick :: detection where
  "example_stick = \<lparr>weapon = ''stick'', confidence = 91 / 100, detection.box = example_box,
     detection.severity = ''LOW'', detection.alert_level = green_circle @ '' Green'',
     detection.risk = ''Low''\<rparr>"

definition example_rifle :: detection where
  "example_rifle = \<lparr>weapon = ''rifle'', confidence = 91 / 100, detection.box = example_box,
     detection.severity = ''SERIOUS-URGENT'', detection.alert_level = red_circle @ '' Red'',
     detection.risk = ''High''\<rparr>"

definition example_knife :: detection where
  "example_knife = \<lparr>weapon = ''knife'', confidence = 91 / 100, detection.box = example_box,
     detection.severity = ''SERIOUS'', detection.alert_level = yellow_circle @ '' Yellow'',
     detection.risk = ''Medium''\<rparr>"

text \<open>An output item with the given label.\<close>

definition example_result :: "string \<Rightarrow> result" where
  "example_result lbl = \<lparr>label = lbl, score = 91 / 100, result.box = example_box\<rparr>"

text \<open>A detector that returns the given output for every image.\<close>

definition fixed_detector :: "result list \<Rightarrow> 'img \<Rightarrow> exn + result list" where
  "fixed_detector results im = Inr results"

text \<open>A detector that sees a rifle and a kitchen knife in every image.\<close>

definition example_detector :: "unit \<Rightarrow> exn + result list" where
  "example_detector = fixed_detector [example_result ''Rifle'', example_result ''kitchen knife'']"

text \<open>A model library whose sentiment model cannot be loaded.\<close>

definition failing_pipeline :: "string \<Rightarrow> string \<Rightarrow> exn + (unit \<Rightarrow> exn + result list)" where
  "failing_pipeline task name =
     (if task = ''sentiment-analysis'' then Inl ''no network'' else Inr (fixed_detector []))"

text \<open>A location in the given county.\<close>

definition example_location :: "string \<Rightarrow> location_data" where
  "example_location c = \<lparr>county = c, sub_county = ''Westlands'', ward = ''Parklands'',
     location = ''CBD'', latitude = - 12921 / 10000, longitude = 368219 / 10000\<rparr>"

text \<open>A time of day with the given microseconds.\<close>

definition example_time :: "nat \<Rightarrow> datetime" where
  "example_time us = \<lparr>year = 2024, month = 3, day = 7, hour = 9, minute = 5, second = 42,
     microsecond = us\<rparr>"

text \<open>The analysis results for an image with a rifle and a knife.\<close>

definition example_analysis :: "unit analysis" where
  "example_analysis = \<lparr>analysis.detected_weapons = [example_rifle, example_knife],
     analysis.alert_level = red_circle @ '' Red'', analysis.severity = ''SERIOUS-URGENT'',
     analysis.risk_assessment = ''Immediate action required - High-risk weapons detected'',
     img = ()\<rparr>"

text \<open>An incident in the given county.\<close>

definition example_incident :: "string \<Rightarrow> incident" where
  "example_incident c = make_incident example_analysis (example_location c) (example_time 0) (example_time 7)"

text \<open>An analysis and the submission of its incident.\<close>

definition example_first_visit :: "unit event list" where
  "example_first_visit =
     [AnalyzeThreat () True,
      SubmitIncident (example_location ''Nairobi'') (example_time 0) (example_time 7) True]"

text \<open>A look at the history, then a second analysis and submission, half a second
  after the first.\<close>

definition example_second_visit :: "unit event list" where
  "example_second_visit =
     [ViewHistory ''Nairobi'' ''All'' ''All'',
      AnalyzeThreat () True,
      SubmitIncident (example_location ''Mombasa'') (example_time 500000) (example_time 500007) True]"

text \<open>The incident of the second submission.\<close>

definition example_second_incident :: incident where
  "example_second_incident = make_incident example_analysis (example_location ''Mombasa'')
     (example_time 500000) (example_time 500007)"

section \<open>JSON export\<close>

text \<open>
  Modelled from the spec: the JSON serialiser and parser of Python's standard library
  (\<^verbatim>\<open>json.dumps\<close> and \<^verbatim>\<open>json.loads\<close>), which are not part of the repository. The program
  calls \<^verbatim>\<open>json.dumps(st.session_state.incidents, indent=2)\<close> and nothing else of it;
  the model below follows the documentation of the module and the behaviour of its
  Python implementation with the default options (ASCII output, item separator a comma,
  key separator a colon and a space).

  A Python value as the serialiser sees it. A Python string is its list of code points;
  a dictionary is the list of its items in insertion order, with string keys. A float
  is a real, as in the rest of the model: the values that are not numbers (infinities,
  NaN) are not modelled.
\<close>

type_synonym pystr = "nat list"

datatype py =
    PyNone
  | PyBool bool
  | PyInt int
  | PyFloat real
  | PyStr pystr
  | PyList "py list"
  | PyDict "(pystr \<times> py) list"

text \<open>
  The strings of the model hold UTF-8 bytes; \<open>utf8_decode\<close> gives the code points of the
  Python string they stand for. A code point it gives is a Unicode scalar value (no
  surrogate), as the code points of every decoded text are; where the bytes are not
  UTF-8 it gives the replacement character.
\<close>

definition is_scalar :: "nat \<Rightarrow> bool" where
  "is_scalar cp = (cp < 0xD800 \<or> (0xE000 \<le> cp \<and> cp < 0x110000))"

definition scalar_or_replacement :: "nat \<Rightarrow> nat" where
  "scalar_or_replacement cp = (if is_scalar cp then cp else 0xFFFD)"

definition continuation :: "nat \<Rightarrow> string \<Rightarrow> bool" where
  "continuation k bs =
     (k \<le> length bs \<and> list_all (\<lambda>b. 0x80 \<le> (of_char b :: nat) \<and> (of_char b :: nat) < 0xC0) (take k bs))"

definition tail_bits :: "nat \<Rightarrow> string \<Rightarrow> nat" where
  "tail_bits k bs = foldl (\<lambda>a b. a * 64 + (of_char b - 0x80)) 0 (take k bs)"

function utf8_decode :: "string \<Rightarrow> pystr" where
  "utf8_decode [] = []"
| "utf8_decode (b0 # bs) =
     (let n0 = (of_char b0 :: nat)
      in if n0 < 0x80 then n0 # utf8_decode bs
         else if 0xC0 \<le> n0 \<and> n0 < 0xE0 \<and> continuation 1 bs then
           scalar_or_replacement ((n0 - 0xC0) * 64 + tail_bits 1 bs) # utf8_decode (drop 1 bs)
         else if 0xE0 \<le> n0 \<and> n0 < 0xF0 \<and> continuation 2 bs then
           scalar_or_replacement ((n0 - 0xE0) * 4096 + tail_bits 2 bs) # utf8_decode (drop 2 bs)
         else if 0xF0 \<le> n0 \<and> n0 < 0xF8 \<and> continuation 3 bs then
           scalar_or_replacement ((n0 - 0xF0) * 262144 + tail_bits 3 bs) # utf8_decode (drop 3 bs)
         else 0xFFFD # utf8_decode bs)"
  by pat_completeness auto
termination
  by (relation "measure length") auto

text \<open>The code points of a text of the program source (a dictionary key).\<close>

definition ascii :: "string \<Rightarrow> pystr" where
  "ascii s = map of_char s"

text \<open>
  The Python values of the records: each dictionary with its keys in the order in which
  the program writes them (lines 134 to 141, 398 to 405 and 424 to 434 of the source;
  the box is the detector's, with integer coordinates).
\<close>

definition py_str :: "string \<Rightarrow> py" where
  "py_str s = PyStr (utf8_decode s)"

definition py_box :: "bbox \<Rightarrow> py" where
  "py_box b = PyDict
     [(ascii ''xmin'', PyInt (xmin b)), (ascii ''ymin'', PyInt (ymin b)),
      (ascii ''xmax'', PyInt (xmax b)), (ascii ''ymax'', PyInt (ymax b))]"

definition py_detection :: "detection \<Rightarrow> py" where
  "py_detection d = PyDict
     [(ascii ''weapon'', py_str (weapon d)),
      (ascii ''confidence'', PyFloat (confidence d)),
      (ascii ''box'', py_box (detection.box d)),
      (ascii ''severity'', py_str (detection.severity d)),
      (ascii ''alert_level'', py_str (detection.alert_level d)),
      (ascii ''risk'', py_str (detection.risk d))]"

definition py_location :: "location_data \<Rightarrow> py" where
  "py_location l = PyDict
     [(ascii ''county'', py_str (county l)),
      (ascii ''sub_county'', py_str (sub_county l)),
      (ascii ''ward'', py_str (ward l)),
      (ascii ''location'', py_str (location_data.location l)),
      (ascii ''latitude'', PyFloat (latitude l)),
      (ascii ''longitude'', PyFloat (longitude l))]"

definition py_incident :: "incident \<Rightarrow> py" where
  "py_incident i = PyDict
     [(ascii ''id'', py_str (id' i)),
      (ascii ''timestamp'', py_str (timestamp i)),
      (ascii ''detected_weapons'', PyList (map py_detection (incident.detected_weapons i))),
      (ascii ''alert_level'', py_str (incident.alert_level i)),
      (ascii ''severity'', py_str (incident.severity i)),
      (ascii ''risk_assessment'', py_str (incident.risk_assessment i)),
      (ascii ''location'', py_location (incident.location i)),
      (ascii ''status'', py_str (status i)),
      (ascii ''recommendations'', py_str (recommendations i))]"

definition py_incidents :: "incident list \<Rightarrow> py" where
  "py_incidents incs = PyList (map py_incident incs)"

subsection \<open>Serialiser\<close>

text \<open>
  Modelled from the spec: the serialiser \<^verbatim>\<open>json.dumps(obj, indent=2)\<close>. A string is
  written between double quotes, with the quote, the backslash and the control
  characters escaped, and every code point outside the printable ASCII range written as
  \<^verbatim>\<open>\uXXXX\<close> (a pair of surrogates beyond the basic plane). A list or dictionary that
  is not empty is written with one item per line, indented by two spaces per level.
  The text of a float (\<^verbatim>\<open>float.__repr__\<close>) is the parameter \<open>float_repr\<close>.
\<close>

definition dquote :: char where "dquote = CHR 0x22"
definition bslash :: char where "bslash = CHR 0x5C"

definition hexdigit :: "nat \<Rightarrow> char" where
  "hexdigit k = ''0123456789abcdef'' ! (k mod 16)"

definition hex4 :: "nat \<Rightarrow> string" where
  "hex4 n = [hexdigit (n div 4096), hexdigit (n div 256), hexdigit (n div 16), hexdigit n]"

definition escape_char :: "nat \<Rightarrow> string" where
  "escape_char c =
     (if c = 0x22 then [bslash, dquote]
      else if c = 0x5C then [bslash, bslash]
      else if c = 0x0A then [bslash, CHR ''n'']
      else if c = 0x0D then [bslash, CHR ''r'']
      else if c = 0x09 then [bslash, CHR ''t'']
      else if c = 0x08 then [bslash, CHR ''b'']
      else if c = 0x0C then [bslash, CHR ''f'']
      else if 0x20 \<le> c \<and> c \<le> 0x7E then [char_of c]
      else if c < 0x10000 then [bslash, CHR ''u''] @ hex4 c
      else [bslash, CHR ''u''] @ hex4 (0xD800 + (c - 0x10000) div 1024 mod 1024) @
           [bslash, CHR ''u''] @ hex4 (0xDC00 + (c - 0x10000) mod 1024))"

definition encode_basestring_ascii :: "pystr \<Rightarrow> string" where
  "encode_basestring_ascii s = dquote # concat (map escape_char s) @ [dquote]"

definition int_repr :: "int \<Rightarrow> string" where
  "int_repr i = (if i < 0 then CHR ''-'' # decimal (nat (- i)) else decimal (nat i))"

definition newline_indent :: "nat \<Rightarrow> string" where
  "newline_indent lvl = CHR 0x0A # replicate (2 * lvl) (CHR '' '')"

text \<open>Modelled from the spec: the encoder of \<^verbatim>\<open>json.dumps\<close> at a nesting level, for a
  value, for the items of a list and for the items of a dictionary.\<close>

fun encode :: "(real \<Rightarrow> string) \<Rightarrow> nat \<Rightarrow> py \<Rightarrow> string"
  and encode_items :: "(real \<Rightarrow> string) \<Rightarrow> nat \<Rightarrow> py list \<Rightarrow> string"
  and encode_members :: "(real \<Rightarrow> string) \<Rightarrow> nat \<Rightarrow> (pystr \<times> py) list \<Rightarrow> string" where
  "encode float_repr lvl PyNone = ''null''"
| "encode float_repr lvl (PyBool b) = (if b then ''true'' else ''false'')"
| "encode float_repr lvl (PyInt i) = int_repr i"
| "encode float_repr lvl (PyFloat x) = float_repr x"
| "encode float_repr lvl (PyStr s) = encode_basestring_ascii s"
| "encode float_repr lvl (PyList xs) =
     (if xs = [] then ''[]''
      else ''['' @ newline_indent (Suc lvl) @ encode_items float_repr (Suc lvl) xs @
           newline_indent lvl @ '']'')"
| "encode float_repr lvl (PyDict kvs) =
     (if kvs = [] then ''{}''
      else ''{'' @ newline_indent (Suc lvl) @ encode_members float_repr (Suc lvl) kvs @
           newline_indent lvl @ ''}'')"
| "encode_items float_repr lvl [] = []"
| "encode_items float_repr lvl (x # xs) =
     encode float_repr lvl x @
     (if xs = [] then [] else '','' @ newline_indent lvl @ encode_items float_repr lvl xs)"
| "encode_members float_repr lvl [] = []"
| "encode_members float_repr lvl ((k, v) # kvs) =
     encode_basestring_ascii k @ '': '' @ encode float_repr lvl v @
     (if kvs = [] then [] else '','' @ newline_indent lvl @ encode_members float_repr lvl kvs)"

text \<open>Modelled from the spec: \<^verbatim>\<open>json.dumps(obj, indent=2)\<close>.\<close>

definition dumps :: "(real \<Rightarrow> string) \<Rightarrow> py \<Rightarrow> string" where
  "dumps float_repr obj = encode float_repr 0 obj"

text \<open>The JSON export of the history page (line 596): the whole stored list,
  whatever the filters of the page are.\<close>

definition export_json :: "(real \<Rightarrow> string) \<Rightarrow> 'img session_state \<Rightarrow> string" where
  "export_json float_repr s = dumps float_repr (py_incidents (incidents s))"

text \<open>The texts of the three floats of the example data, and their reading.\<close>

definition example_float_repr :: "real \<Rightarrow> string" where
  "example_float_repr x =
     (if x = 91 / 100 then ''0.91''
      else if x = - 12921 / 10000 then ''-1.2921''
      else if x = 368219 / 10000 then ''36.8219''
      else ''0.0'')"

text \<open>
  Modelled from the spec: the parser \<^verbatim>\<open>json.loads\<close>. \<open>scanstring\<close> reads a string
  after its opening quote; \<open>scan_once\<close>, \<open>JSONArray\<close> and \<open>JSONObject\<close> are the
  functions of these names in the module, with the number of nested calls bounded by a
  fuel that \<open>loads\<close> sets to the length of the text. A number is the longest run of
  number characters, which must be a number of the JSON grammar: an integer, or a float
  when it has a fraction or an exponent, read by the parameter \<open>float_parse\<close>
  (\<^verbatim>\<open>float\<close>). The text is ASCII, as the serialiser writes it.
\<close>

definition json_ws :: "char \<Rightarrow> bool" where
  "json_ws c = (c = CHR '' '' \<or> c = CHR 0x09 \<or> c = CHR 0x0A \<or> c = CHR 0x0D)"

definition skip_ws :: "string \<Rightarrow> string" where
  "skip_ws s = dropWhile json_ws s"

definition hexval :: "char \<Rightarrow> nat option" where
  "hexval c =
     (let n = (of_char c :: nat)
      in if 48 \<le> n \<and> n \<le> 57 then Some (n - 48)
         else if 97 \<le> n \<and> n \<le> 102 then Some (n - 87)
         else if 65 \<le> n \<and> n \<le> 70 then Some (n - 55)
         else None)"

definition decode_uXXXX :: "string \<Rightarrow> nat option" where
  "decode_uXXXX s =
     (case map hexval (take 4 s) of
        [Some a, Some b, Some c, Some d] \<Rightarrow> Some (((a * 16 + b) * 16 + c) * 16 + d)
      | _ \<Rightarrow> None)"

definition read_escape :: "string \<Rightarrow> (nat \<times> nat) option" where
  "read_escape s =
     (case s of
        [] \<Rightarrow> None
      | e # r \<Rightarrow>
          if e = CHR ''u'' then
            (case decode_uXXXX r of
               None \<Rightarrow> None
             | Some uni \<Rightarrow>
                 if 0xD800 \<le> uni \<and> uni \<le> 0xDBFF \<and> take 2 (drop 4 r) = [bslash, CHR ''u''] then
                   (case decode_uXXXX (drop 6 r) of
                      None \<Rightarrow> None
                    | Some uni2 \<Rightarrow>
                        if 0xDC00 \<le> uni2 \<and> uni2 \<le> 0xDFFF
                        then Some (0x10000 + ((uni - 0xD800) * 1024 + (uni2 - 0xDC00)), 11)
                        else Some (uni, 5))
                 else Some (uni, 5))
          else if e = dquote then Some (0x22, 1)
          else if e = bslash then Some (0x5C, 1)
          else if e = CHR ''/'' then Some (0x2F, 1)
          else if e = CHR ''b'' then Some (0x08, 1)
          else if e = CHR ''f'' then Some (0x0C, 1)
          else if e = CHR ''n'' then Some (0x0A, 1)
          else if e = CHR ''r'' then Some (0x0D, 1)
          else if e = CHR ''t'' then Some (0x09, 1)
          else None)"

text \<open>Modelled from the spec: the string scanner of \<^verbatim>\<open>json.loads\<close>, after the opening
  quote; a raw control character ends the parse with an error.\<close>

function scanstring :: "string \<Rightarrow> (pystr \<times> string) option" where
  "scanstring [] = None"
| "scanstring (c # s) =
     (if c = dquote then Some ([], s)
      else if c = bslash then
        (case read_escape s of
           None \<Rightarrow> None
         | Some (cp, k) \<Rightarrow>
             (case scanstring (drop k s) of
                None \<Rightarrow> None
              | Some (t, r) \<Rightarrow> Some (cp # t, r)))
      else if (of_char c :: nat) < 0x20 then None
      else (case scanstring s of
              None \<Rightarrow> None
            | Some (t, r) \<Rightarrow> Some (of_char c # t, r)))"
  by pat_completeness auto
termination
  by (relation "measure length") auto

datatype number_state = NStart | NMinus | NZero | NInt | NDot | NFrac | NE | NESign | NExp

definition is_digit :: "char \<Rightarrow> bool" where
  "is_digit c = (48 \<le> (of_char c :: nat) \<and> (of_char c :: nat) \<le> 57)"

definition is_exp :: "char \<Rightarrow> bool" where
  "is_exp c = (c = CHR ''e'' \<or> c = CHR ''E'')"

definition is_sign :: "char \<Rightarrow> bool" where
  "is_sign c = (c = CHR ''+'' \<or> c = CHR ''-'')"

fun number_step :: "number_state \<Rightarrow> char \<Rightarrow> number_state option" where
  "number_step NStart c =
     (if c = CHR ''-'' then Some NMinus else if c = CHR ''0'' then Some NZero
      else if is_digit c then Some NInt else None)"
| "number_step NMinus c =
     (if c = CHR ''0'' then Some NZero else if is_digit c then Some NInt else None)"
| "number_step NZero c =
     (if c = CHR ''.'' then Some NDot else if is_exp c then Some NE else None)"
| "number_step NInt c =
     (if is_digit c then Some NInt else if c = CHR ''.'' then Some NDot
      else if is_exp c then Some NE else None)"
| "number_step NDot c = (if is_digit c then Some NFrac else None)"
| "number_step NFrac c =
     (if is_digit c then Some NFrac else if is_exp c then Some NE else None)"
| "number_step NE c =
     (if is_sign c then Some NESign else if is_digit c then Some NExp else None)"
| "number_step NESign c = (if is_digit c then Some NExp else None)"
| "number_step NExp c = (if is_digit c then Some NExp else None)"

fun number_run :: "number_state \<Rightarrow> string \<Rightarrow> number_state option" where
  "number_run st [] = Some st"
| "number_run st (c # s) =
     (case number_step st c of None \<Rightarrow> None | Some st' \<Rightarrow> number_run st' s)"

definition int_literal :: "string \<Rightarrow> bool" where
  "int_literal tok = (number_run NStart tok = Some NZero \<or> number_run NStart tok = Some NInt)"

definition float_literal :: "string \<Rightarrow> bool" where
  "float_literal tok = (number_run NStart tok = Some NFrac \<or> number_run NStart tok = Some NExp)"

definition number_char :: "char \<Rightarrow> bool" where
  "number_char c = (is_digit c \<or> is_sign c \<or> is_exp c \<or> c = CHR ''.'')"

definition nat_of_digits :: "string \<Rightarrow> nat" where
  "nat_of_digits ds = foldl (\<lambda>a c. 10 * a + (of_char c - 48)) 0 ds"

definition int_of_literal :: "string \<Rightarrow> int" where
  "int_of_literal tok =
     (case tok of
        [] \<Rightarrow> 0
      | c # ds \<Rightarrow> if c = CHR ''-'' then - int (nat_of_digits ds) else int (nat_of_digits (c # ds)))"

definition scan_number :: "(string \<Rightarrow> real) \<Rightarrow> string \<Rightarrow> (py \<times> string) option" where
  "scan_number float_parse s =
     (let tok = takeWhile number_char s; r = dropWhile number_char s
      in if int_literal tok then Some (PyInt (int_of_literal tok), r)
         else if float_literal tok then Some (PyFloat (float_parse tok), r)
         else None)"

text \<open>Modelled from the spec: the value, array and object scanners of \<^verbatim>\<open>json.loads\<close>;
  \<open>None\<close> is a decoding error, or the fuel spent.\<close>

fun scan_once :: "(string \<Rightarrow> real) \<Rightarrow> nat \<Rightarrow> string \<Rightarrow> (py \<times> string) option"
  and JSONArray :: "(string \<Rightarrow> real) \<Rightarrow> nat \<Rightarrow> string \<Rightarrow> (py list \<times> string) option"
  and JSONObject :: "(string \<Rightarrow> real) \<Rightarrow> nat \<Rightarrow> string \<Rightarrow> ((pystr \<times> py) list \<times> string) option" where
  "scan_once float_parse 0 s = None"
| "scan_once float_parse (Suc n) s =
     (case s of
        [] \<Rightarrow> None
      | c # r \<Rightarrow>
          if c = dquote then
            (case scanstring r of None \<Rightarrow> None | Some (t, r') \<Rightarrow> Some (PyStr t, r'))
          else if c = CHR ''['' then
            (case skip_ws r of
               [] \<Rightarrow> None
             | d # r1 \<Rightarrow>
                 if d = CHR '']'' then Some (PyList [], r1)
                 else (case JSONArray float_parse n (d # r1) of
                         None \<Rightarrow> None
                       | Some (xs, r') \<Rightarrow> Some (PyList xs, r')))
          else if c = CHR ''{'' then
            (case skip_ws r of
               [] \<Rightarrow> None
             | d # r1 \<Rightarrow>
                 if d = CHR ''}'' then Some (PyDict [], r1)
                 else (case JSONObject float_parse n (d # r1) of
                         None \<Rightarrow> None
                       | Some (kvs, r') \<Rightarrow> Some (PyDict kvs, r')))
          else if prefix ''null'' s then Some (PyNone, drop 4 s)
          else if prefix ''true'' s then Some (PyBool True, drop 4 s)
          else if prefix ''false'' s then Some (PyBool False, drop 5 s)
          else scan_number float_parse s)"
| "JSONArray float_parse 0 s = None"
| "JSONArray float_parse (Suc n) s =
     (case scan_once float_parse n s of
        None \<Rightarrow> None
      | Some (v, r) \<Rightarrow>
          (case skip_ws r of
             [] \<Rightarrow> None
           | c # r' \<Rightarrow>
               if c = CHR '']'' then Some ([v], r')
               else if c = CHR '','' then
                 (case JSONArray float_parse n (skip_ws r') of
                    None \<Rightarrow> None
                  | Some (vs, r'') \<Rightarrow> Some (v # vs, r''))
               else None))"
| "JSONObject float_parse 0 s = None"
| "JSONObject float_parse (Suc n) s =
     (case s of
        [] \<Rightarrow> None
      | q # r \<Rightarrow>
          if q \<noteq> dquote then None
          else
            (case scanstring r of
               None \<Rightarrow> None
             | Some (k, r1) \<Rightarrow>
                 (case skip_ws r1 of
                    [] \<Rightarrow> None
                  | c # r2 \<Rightarrow>
                      if c \<noteq> CHR '':'' then None
                      else
                        (case scan_once float_parse n (skip_ws r2) of
                           None \<Rightarrow> None
                         | Some (v, r3) \<Rightarrow>
                             (case skip_ws r3 of
                                [] \<Rightarrow> None
                              | d # r4 \<Rightarrow>
                                  if d = CHR ''}'' then Some ([(k, v)], r4)
                                  else if d = CHR '','' then
                                    (case JSONObject float_parse n (skip_ws r4) of
                                       None \<Rightarrow> None
                                     | Some (kvs, r5) \<Rightarrow> Some ((k, v) # kvs, r5))
                                  else None)))))"

text \<open>Modelled from the spec: \<^verbatim>\<open>json.loads(s)\<close>, which skips the white space around
  the one value of the document and refuses anything after it.\<close>

definition loads :: "(string \<Rightarrow> real) \<Rightarrow> string \<Rightarrow> py option" where
  "loads float_parse s =
     (case scan_once float_parse (length s) (skip_ws s) of
        None \<Rightarrow> None
      | Some (obj, r) \<Rightarrow> if skip_ws r = [] then Some obj else None)"

definition example_float_parse :: "string \<Rightarrow> real" where
  "example_float_parse tok =
     (if tok = ''0.91'' then 91 / 100
      else if tok = ''-1.2921'' then - 12921 / 10000
      else if tok = ''36.8219'' then 368219 / 10000
      else 0)"

text \<open>
  What is taken of the float functions of Python for a float \<open>x\<close>: its text is a float
  of the JSON grammar, and reading the text gives \<open>x\<close> back.
\<close>

definition float_round_trip :: "(real \<Rightarrow> string) \<Rightarrow> (string \<Rightarrow> real) \<Rightarrow> real \<Rightarrow> bool" where
  "float_round_trip float_repr float_parse x =
     (float_literal (float_repr x) \<and> float_parse (float_repr x) = x)"

text \<open>A Python value whose strings hold scalar values only and whose floats are
  printed and read back as above.\<close>

fun wf_py :: "(real \<Rightarrow> string) \<Rightarrow> (string \<Rightarrow> real) \<Rightarrow> py \<Rightarrow> bool"
  and wf_items :: "(real \<Rightarrow> string) \<Rightarrow> (string \<Rightarrow> real) \<Rightarrow> py list \<Rightarrow> bool"
  and wf_members :: "(real \<Rightarrow> string) \<Rightarrow> (string \<Rightarrow> real) \<Rightarrow> (pystr \<times> py) list \<Rightarrow> bool" where
  "wf_py fr fp PyNone = True"
| "wf_py fr fp (PyBool b) = True"
| "wf_py fr fp (PyInt i) = True"
| "wf_py fr fp (PyFloat x) = float_round_trip fr fp x"
| "wf_py fr fp (PyStr s) = list_all is_scalar s"
| "wf_py fr fp (PyList xs) = wf_items fr fp xs"
| "wf_py fr fp (PyDict kvs) = wf_members fr fp kvs"
| "wf_items fr fp [] = True"
| "wf_items fr fp (x # xs) = (wf_py fr fp x \<and> wf_items fr fp xs)"
| "wf_members fr fp [] = True"
| "wf_members fr fp ((k, v) # kvs) = (list_all is_scalar k \<and> wf_py fr fp v \<and> wf_members fr fp kvs)"

text \<open>A number of nested calls that is enough to parse the text of a value.\<close>

fun need :: "py \<Rightarrow> nat"
  and need_items :: "py list \<Rightarrow> nat"
  and need_members :: "(pystr \<times> py) list \<Rightarrow> nat" where
  "need PyNone = 1"
| "need (PyBool b) = 1"
| "need (PyInt i) = 1"
| "need (PyFloat x) = 1"
| "need (PyStr s) = 1"
| "need (PyList xs) = Suc (need_items xs)"
| "need (PyDict kvs) = Suc (need_members kvs)"
| "need_items [] = 0"
| "need_items (x # xs) = Suc (need x + need_items xs)"
| "need_members [] = 0"
| "need_members ((k, v) # kvs) = Suc (need v + need_members kvs)"

text \<open>The floats of an incident list: confidences, latitudes and longitudes.\<close>

definition stored_floats :: "incident list \<Rightarrow> real list" where
  "stored_floats incs =
     concat (map (\<lambda>i. map confidence (incident.detected_weapons i) @
                       [latitude (incident.location i), longitude (incident.location i)]) incs)"

subsection \<open>Auxiliary notions for the JSON proofs\<close>

text \<open>The seven code points with a two-character escape; a text that cannot continue a
  number; a character that can begin a value.\<close>

definition short_escaped :: "nat \<Rightarrow> bool" where
  "short_escaped c =
     (c = 0x22 \<or> c = 0x5C \<or> c = 0x0A \<or> c = 0x0D \<or> c = 0x09 \<or> c = 0x08 \<or> c = 0x0C)"

definition delimited :: "string \<Rightarrow> bool" where
  "delimited rest = (case rest of [] \<Rightarrow> True | c # r \<Rightarrow> \<not> number_char c)"

definition value_start :: "char \<Rightarrow> bool" where
  "value_start c = (\<not> json_ws c \<and> c \<noteq> CHR '']'' \<and> c \<noteq> CHR ''}'')"

section \<open>Properties\<close>

subsection \<open>Text functions\<close>

lemma lower_alphabet:
  "lower ''ABCDEFGHIJKLMNOPQRSTUVWXYZ [09]_az'' = ''abcdefghijklmnopqrstuvwxyz [09]_az''"
  by (simp add: lower_def)

lemma str_in_sublist: "str_in w s = sublist w s"
proof (induction s)
  case Nil
  show ?case by simp
next
  case (Cons c s)
  have sw: "starts_with u v = prefix u v" for u v
    by (induction u v rule: starts_with.induct) simp_all
  show ?case by (simp add: Cons sw sublist_Cons_right)
qed

subsection \<open>Threat aggregator\<close>

lemma risk_in_levels:
  "(r \<in> set (map detection.risk ds)) = (\<exists>d \<in> set ds. detection.risk d = r)"
  by (auto simp: image_iff)

text \<open>
  Claim C2. A detection list that holds at least one detection of risk High is
  aggregated to the red triple, whatever the risks of the other detections are.
\<close>

theorem analyze_threat_level_high:
  "\<exists>d \<in> set ds. detection.risk d = ''High'' \<Longrightarrow>
   analyze_threat_level ds sa =
     (red_circle @ '' Red'', ''SERIOUS-URGENT'',
      ''Immediate action required - High-risk weapons detected'')"
proof -
  assume h: "\<exists>d \<in> set ds. detection.risk d = ''High''"
  then have ne: "ds \<noteq> []" by auto
  from h have "''High'' \<in> set (map detection.risk ds)" by (simp only: risk_in_levels)
  with ne show ?thesis by (simp add: analyze_threat_level_def)
qed

theorem analyze_threat_level_high_witness:
  "(\<exists>d \<in> set [example_stick, example_rifle, example_knife]. detection.risk d = ''High'') \<and>
   analyze_threat_level [example_stick, example_rifle, example_knife] () =
     (red_circle @ '' Red'', ''SERIOUS-URGENT'',
      ''Immediate action required - High-risk weapons detected'')"
proof -
  have h: "\<exists>d \<in> set [example_stick, example_rifle, example_knife]. detection.risk d = ''High''"
    by (simp add: example_rifle_def)
  show ?thesis using h analyze_threat_level_high [OF h, of "()"] by simp
qed

text \<open>
  Claim C3. The aggregator is a function of its arguments alone and has a value on every
  detection list: on the empty list the fixed no-threat triple; on a list that holds a
  risk of the table (as every list does that is not empty and comes from the
  classifier), the outcome of a detection whose risk no other detection of the list
  precedes, High before Medium before Low.
\<close>

theorem analyze_threat_level_precedence:
  "analyze_threat_level [] sa =
     (green_circle @ '' Green'', ''LOW'', ''No immediate threat detected'') \<and>
   ((\<exists>d \<in> set ds. detection.risk d \<in> {''High'', ''Medium'', ''Low''}) \<longrightarrow>
     (\<exists>d \<in> set ds.
        (\<forall>d' \<in> set ds. risk_precedence (detection.risk d') \<le> risk_precedence (detection.risk d)) \<and>
        risk_outcome (detection.risk d) = Some (analyze_threat_level ds sa)))"
proof (intro conjI impI)
  show "analyze_threat_level [] sa =
     (green_circle @ '' Green'', ''LOW'', ''No immediate threat detected'')"
    by (simp add: analyze_threat_level_def)
next
  assume known: "\<exists>d \<in> set ds. detection.risk d \<in> {''High'', ''Medium'', ''Low''}"
  then have ne: "ds \<noteq> []" by auto
  let ?goal = "\<exists>d \<in> set ds.
        (\<forall>d' \<in> set ds. risk_precedence (detection.risk d') \<le> risk_precedence (detection.risk d)) \<and>
        risk_outcome (detection.risk d) = Some (analyze_threat_level ds sa)"
  consider (high) "\<exists>d \<in> set ds. detection.risk d = ''High''"
    | (medium) "\<not> (\<exists>d \<in> set ds. detection.risk d = ''High'')" "\<exists>d \<in> set ds. detection.risk d = ''Medium''"
    | (low) "\<not> (\<exists>d \<in> set ds. detection.risk d = ''High'')" "\<not> (\<exists>d \<in> set ds. detection.risk d = ''Medium'')"
    by blast
  then show ?goal
  proof cases
    case high
    then obtain d where d: "d \<in> set ds" "detection.risk d = ''High''" by blast
    have top: "\<forall>d' \<in> set ds. risk_precedence (detection.risk d') \<le> risk_precedence (detection.risk d)"
      by (simp add: d risk_precedence_def)
    have "analyze_threat_level ds sa = (red_circle @ '' Red'', ''SERIOUS-URGENT'',
      ''Immediate action required - High-risk weapons detected'')"
      using ne high by (simp add: analyze_threat_level_def risk_in_levels del: set_map)
    then have "risk_outcome (detection.risk d) = Some (analyze_threat_level ds sa)"
      by (simp add: d risk_outcome_def)
    with d top show ?thesis by blast
  next
    case medium
    then obtain d where d: "d \<in> set ds" "detection.risk d = ''Medium''" by blast
    have top: "\<forall>d' \<in> set ds. risk_precedence (detection.risk d') \<le> risk_precedence (detection.risk d)"
      using medium(1) by (auto simp: d risk_precedence_def)
    have "analyze_threat_level ds sa = (yellow_circle @ '' Yellow'', ''SERIOUS'',
         ''Caution advised - Medium-risk weapons detected'')"
      using ne medium by (simp add: analyze_threat_level_def risk_in_levels del: set_map)
    then have "risk_outcome (detection.risk d) = Some (analyze_threat_level ds sa)"
      by (simp add: d risk_outcome_def)
    with d top show ?thesis by blast
  next
    case low
    with known obtain d where d: "d \<in> set ds" "detection.risk d = ''Low''" by auto
    have top: "\<forall>d' \<in> set ds. risk_precedence (detection.risk d') \<le> risk_precedence (detection.risk d)"
      using low by (auto simp: d risk_precedence_def)
    have "analyze_threat_level ds sa = (green_circle @ '' Green'', ''LOW'',
         ''Monitor situation - Low-risk items detected'')"
      using ne low by (simp add: analyze_threat_level_def risk_in_levels del: set_map)
    then have "risk_outcome (detection.risk d) = Some (analyze_threat_level ds sa)"
      by (simp add: d risk_outcome_def)
    with d top show ?thesis by blast
  qed
qed

theorem analyze_threat_level_precedence_witness:
  "analyze_threat_level [] () =
     (green_circle @ '' Green'', ''LOW'', ''No immediate threat detected'') \<and>
   (\<exists>d \<in> set [example_stick, example_knife]. detection.risk d \<in> {''High'', ''Medium'', ''Low''}) \<and>
   (\<exists>d \<in> set [example_stick, example_knife].
        (\<forall>d' \<in> set [example_stick, example_knife].
            risk_precedence (detection.risk d') \<le> risk_precedence (detection.risk d)) \<and>
        risk_outcome (detection.risk d) = Some (analyze_threat_level [example_stick, example_knife] ())) \<and>
   analyze_threat_level [example_stick, example_knife] () =
     (yellow_circle @ '' Yellow'', ''SERIOUS'', ''Caution advised - Medium-risk weapons detected'')"
proof -
  have h: "\<exists>d \<in> set [example_stick, example_knife]. detection.risk d \<in> {''High'', ''Medium'', ''Low''}"
    by (simp add: example_stick_def)
  have v: "analyze_threat_level [example_stick, example_knife] () =
     (yellow_circle @ '' Yellow'', ''SERIOUS'', ''Caution advised - Medium-risk weapons detected'')"
    by (simp add: analyze_threat_level_def example_stick_def example_knife_def)
  from analyze_threat_level_precedence [of "()" "[example_stick, example_knife]"] h v
  show ?thesis by blast
qed

text \<open>
  Claim C7. The result of the aggregator does not depend on the sentiment analyzer it is
  given: any two values of that argument, of any types, give the same triple.
\<close>

theorem analyze_threat_level_ignores_sentiment:
  "analyze_threat_level ds sa1 = analyze_threat_level ds sa2"
  by (simp add: analyze_threat_level_def)

subsection \<open>Weapon classifier\<close>

lemma scan_keywords_concat:
  "scan_keywords r lbl ws acc = acc @ concat (map (keyword_detections r lbl) ws)"
  by (induction ws arbitrary: acc) (simp_all add: keyword_detections_def split: option.split)

lemma scan_results_concat:
  "scan_results rs acc = acc @ concat (map item_detections rs)"
  by (induction rs arbitrary: acc) (simp_all add: item_detections_def scan_keywords_concat)

lemma single_word_matches:
  "split kw = [kw] \<Longrightarrow> keyword_matches kw lbl = sublist kw lbl"
  by (simp add: keyword_matches_def str_in_sublist)

lemma split_keywords:
  "split ''knife'' = [''knife'']" "split ''gun'' = [''gun'']" "split ''pistol'' = [''pistol'']"
  "split ''rifle'' = [''rifle'']" "split ''stick'' = [''stick'']"
  by (simp_all add: split_def is_space_def)

lemma table_lookups:
  "WEAPON_SEVERITY ''knife'' = Some \<lparr>severity_entry.severity = ''SERIOUS'',
        severity_entry.alert_level = yellow_circle @ '' Yellow'', severity_entry.risk = ''Medium''\<rparr>"
  "WEAPON_SEVERITY ''gun'' = Some \<lparr>severity_entry.severity = ''SERIOUS-URGENT'',
        severity_entry.alert_level = red_circle @ '' Red'', severity_entry.risk = ''High''\<rparr>"
  "WEAPON_SEVERITY ''pistol'' = Some \<lparr>severity_entry.severity = ''SERIOUS-URGENT'',
        severity_entry.alert_level = red_circle @ '' Red'', severity_entry.risk = ''High''\<rparr>"
  "WEAPON_SEVERITY ''rifle'' = Some \<lparr>severity_entry.severity = ''SERIOUS-URGENT'',
        severity_entry.alert_level = red_circle @ '' Red'', severity_entry.risk = ''High''\<rparr>"
  "WEAPON_SEVERITY ''stick'' = Some \<lparr>severity_entry.severity = ''LOW'',
        severity_entry.alert_level = green_circle @ '' Green'', severity_entry.risk = ''Low''\<rparr>"
  "WEAPON_SEVERITY ''baseball bat'' = None"
  by (simp_all add: WEAPON_SEVERITY_def)

lemma keyword_detections_table:
  "k \<in> set [''knife'', ''gun'', ''pistol'', ''rifle'', ''stick''] \<Longrightarrow>
   keyword_detections r lbl k = (if sublist k lbl then [table_detection r k] else [])"
  by (auto simp: keyword_detections_def single_word_matches split_keywords table_lookups table_detection_def)

lemma keyword_detections_bat: "keyword_detections r lbl ''baseball bat'' = []"
  by (simp add: keyword_detections_def table_lookups)

lemma item_detections_eq:
  "item_detections r =
     concat (map (\<lambda>k. if sublist k (lower (label r)) then [table_detection r k] else [])
       [''knife'', ''gun'', ''pistol'', ''rifle'', ''stick''])"
  by (simp add: item_detections_def scan_keywords_concat weapon_keywords_def
      keyword_detections_table keyword_detections_bat)

lemma count_emitted:
  "distinct ks \<Longrightarrow> (\<And>k'. weapon (mk k') = k') \<Longrightarrow>
   length (filter (\<lambda>d. weapon d = k) (concat (map (\<lambda>k'. if P k' then [mk k'] else []) ks))) =
     (if k \<in> set ks \<and> P k then 1 else 0)"
  by (induction ks) auto

lemma weapon_table_detection: "weapon (table_detection r k) = k"
  by (simp add: table_detection_def Let_def)

lemma table_detection_fields:
  "k \<in> set [''knife'', ''gun'', ''pistol'', ''rifle'', ''stick''] \<Longrightarrow>
   confidence (table_detection r k) = score r \<and>
   detection.box (table_detection r k) = result.box r \<and>
   WEAPON_SEVERITY k = Some (table_entry_of (table_detection r k))"
  by (auto simp: table_detection_def table_entry_of_def table_lookups)

text \<open>
  Claim C1, as amended. When the detector returns its output, the classifier returns the
  detections of the items, item after item. For an item and a keyword, the item
  contributes exactly one detection of that keyword when the keyword is one of knife,
  gun, pistol, rifle, stick and occurs in the label put to lower case, and none
  otherwise. Each detection carries the confidence and the box of its item, whatever
  the confidence is, and the severity, alert level and risk of the table for its keyword.
\<close>

theorem detect_weapons_per_keyword:
  "object_detector im = Inr results \<Longrightarrow>
   fst (detect_weapons im (Some object_detector)) = concat (map item_detections results) \<and>
   length (filter (\<lambda>d. weapon d = k) (item_detections r)) =
     (if k \<in> set [''knife'', ''gun'', ''pistol'', ''rifle'', ''stick''] \<and>
         sublist k (lower (label r)) then 1 else 0) \<and>
   (\<forall>d \<in> set (item_detections r).
      confidence d = score r \<and> detection.box d = result.box r \<and>
      WEAPON_SEVERITY (weapon d) = Some (table_entry_of d))"
proof (intro conjI)
  assume "object_detector im = Inr results"
  then show "fst (detect_weapons im (Some object_detector)) = concat (map item_detections results)"
    by (simp add: detect_weapons_def scan_results_concat)
next
  have "distinct [''knife'', ''gun'', ''pistol'', ''rifle'', ''stick'']" by simp
  from count_emitted [where mk = "table_detection r" and k = k
      and P = "\<lambda>k. sublist k (lower (label r))", OF this weapon_table_detection]
  show "length (filter (\<lambda>d. weapon d = k) (item_detections r)) =
     (if k \<in> set [''knife'', ''gun'', ''pistol'', ''rifle'', ''stick''] \<and>
         sublist k (lower (label r)) then 1 else 0)"
    by (simp only: item_detections_eq)
next
  show "\<forall>d \<in> set (item_detections r).
      confidence d = score r \<and> detection.box d = result.box r \<and>
      WEAPON_SEVERITY (weapon d) = Some (table_entry_of d)"
  proof
    fix d assume "d \<in> set (item_detections r)"
    then obtain k where k: "k \<in> set [''knife'', ''gun'', ''pistol'', ''rifle'', ''stick'']"
      and d: "d = table_detection r k"
      unfolding item_detections_eq by (auto split: if_splits)
    from table_detection_fields [OF k, of r] show "confidence d = score r \<and> detection.box d = result.box r \<and>
      WEAPON_SEVERITY (weapon d) = Some (table_entry_of d)"
      by (simp add: d weapon_table_detection)
  qed
qed

theorem detect_weapons_per_keyword_witness:
  "fixed_detector [example_result ''Rifle''] () = Inr [example_result ''Rifle''] \<and>
   fst (detect_weapons () (Some (fixed_detector [example_result ''Rifle'']))) = [example_rifle] \<and>
   length (filter (\<lambda>d. weapon d = ''rifle'') (item_detections (example_result ''Rifle''))) = 1 \<and>
   confidence example_rifle = score (example_result ''Rifle'') \<and>
   WEAPON_SEVERITY (weapon example_rifle) = Some (table_entry_of example_rifle)"
proof -
  have h: "fixed_detector [example_result ''Rifle''] () = Inr [example_result ''Rifle'']"
    by (simp add: fixed_detector_def)
  have e: "item_detections (example_result ''Rifle'') = [example_rifle]"
    by (simp add: item_detections_eq example_result_def lower_def sublist_Cons_right
        table_detection_def table_lookups example_rifle_def)
  have s: "sublist ''rifle'' (lower (label (example_result ''Rifle'')))"
    by (simp add: example_result_def lower_def)
  from detect_weapons_per_keyword [where object_detector = "fixed_detector [example_result ''Rifle'']"
      and im = "()" and results = "[example_result ''Rifle'']" and k = "''rifle''"
      and r = "example_result ''Rifle''"] h e s
  show ?thesis by simp
qed

text \<open>
  Claim C1 as stated fails: a label that contains machete, or baseball bat, gives no
  detection, and a label that contains both gun and pistol gives two.
\<close>

theorem detect_weapons_counterexample:
  "str_in ''machete'' (label (example_result ''machete'')) \<and>
   fst (detect_weapons () (Some (fixed_detector [example_result ''machete'']))) = [] \<and>
   str_in ''baseball bat'' (label (example_result ''baseball bat'')) \<and>
   fst (detect_weapons () (Some (fixed_detector [example_result ''baseball bat'']))) = [] \<and>
   str_in ''gun'' (label (example_result ''handgun pistol'')) \<and>
   map weapon (fst (detect_weapons () (Some (fixed_detector [example_result ''handgun pistol''])))) =
     [''gun'', ''pistol'']"
  by (simp add: detect_weapons_def fixed_detector_def example_result_def weapon_keywords_def
      keyword_matches_def split_def is_space_def lower_def WEAPON_SEVERITY_def)

subsection \<open>Model loader\<close>

text \<open>
  Claim C8. When loading a model raises, the loader returns \<open>(None, None)\<close>; it has
  called the library once for the detector, and once more for the sentiment model when
  the detector was loaded, and then reported the error: no call is made twice and
  nothing follows the report. The weapon detector, given \<open>None\<close> for the model, returns
  the empty list for every image and reports nothing.
\<close>

theorem load_models_failure:
  "isl (pipeline ''object-detection'' ''facebook/detr-resnet-50'') \<or>
   isl (pipeline ''sentiment-analysis'' ''distilbert-base-uncased-finetuned-sst-2-english'') \<Longrightarrow>
   fst (load_models pipeline) = (None, None) \<and>
   (\<exists>e. snd (load_models pipeline) =
          [PipelineCall ''object-detection'' ''facebook/detr-resnet-50'',
           StError (''Error loading models: '' @ e)] \<or>
        snd (load_models pipeline) =
          [PipelineCall ''object-detection'' ''facebook/detr-resnet-50'',
           PipelineCall ''sentiment-analysis'' ''distilbert-base-uncased-finetuned-sst-2-english'',
           StError (''Error loading models: '' @ e)]) \<and>
   distinct (snd (load_models pipeline)) \<and>
   detect_weapons im None = ([], [])"
  by (auto simp: load_models_def detect_weapons_def isl_def split: sum.splits)

theorem load_models_failure_witness:
  "isl (failing_pipeline ''sentiment-analysis'' ''distilbert-base-uncased-finetuned-sst-2-english'') \<and>
   fst (load_models failing_pipeline) = (None, None) \<and>
   snd (load_models failing_pipeline) =
          [PipelineCall ''object-detection'' ''facebook/detr-resnet-50'',
           PipelineCall ''sentiment-analysis'' ''distilbert-base-uncased-finetuned-sst-2-english'',
           StError ''Error loading models: no network''] \<and>
   detect_weapons () (fst (fst (load_models failing_pipeline))) = ([], [])"
proof -
  have h: "isl (failing_pipeline ''sentiment-analysis'' ''distilbert-base-uncased-finetuned-sst-2-english'')"
    by (simp add: failing_pipeline_def)
  have t: "snd (load_models failing_pipeline) =
          [PipelineCall ''object-detection'' ''facebook/detr-resnet-50'',
           PipelineCall ''sentiment-analysis'' ''distilbert-base-uncased-finetuned-sst-2-english'',
           StError ''Error loading models: no network'']"
    by (simp add: load_models_def failing_pipeline_def)
  from load_models_failure [where pipeline = failing_pipeline and im = "()"] h t
  show ?thesis by simp
qed

subsection \<open>History page\<close>

lemma count_list_filter:
  "count_list (filter P xs) x = (if P x then count_list xs x else 0)"
  by (induction xs) auto

text \<open>
  Claim C5. With a county chosen in the county filter (any value but the entry
  \<^verbatim>\<open>All\<close>, which switches the filter off) and the two other filters off, the history
  page lists exactly the incidents of that county: only such incidents, each as many
  times as it is in the list, in the order of the list.
\<close>

theorem filter_by_county:
  "filter_county \<noteq> ''All'' \<Longrightarrow>
   set (apply_filters filter_county ''All'' ''All'' incs) =
     {i \<in> set incs. county (location i) = filter_county} \<and>
   subseq (apply_filters filter_county ''All'' ''All'' incs) incs \<and>
   (\<forall>i. county (location i) = filter_county \<longrightarrow>
        count_list (apply_filters filter_county ''All'' ''All'' incs) i = count_list incs i)"
  by (simp add: apply_filters_def count_list_filter)

theorem filter_by_county_witness:
  "''Nairobi'' \<noteq> ''All'' \<and>
   apply_filters ''Nairobi'' ''All'' ''All''
     [example_incident ''Nairobi'', example_incident ''Mombasa'', example_incident ''Nairobi''] =
     [example_incident ''Nairobi'', example_incident ''Nairobi''] \<and>
   subseq [example_incident ''Nairobi'', example_incident ''Nairobi'']
     [example_incident ''Nairobi'', example_incident ''Mombasa'', example_incident ''Nairobi''] \<and>
   count_list (apply_filters ''Nairobi'' ''All'' ''All''
     [example_incident ''Nairobi'', example_incident ''Mombasa'', example_incident ''Nairobi''])
     (example_incident ''Nairobi'') = 2"
proof -
  have h: "''Nairobi'' \<noteq> ''All''" by simp
  have c: "county (location (example_incident ''Nairobi'')) = ''Nairobi''"
    "county (location (example_incident ''Mombasa'')) = ''Mombasa''"
    by (simp_all add: example_incident_def make_incident_def example_location_def)
  have v: "apply_filters ''Nairobi'' ''All'' ''All''
     [example_incident ''Nairobi'', example_incident ''Mombasa'', example_incident ''Nairobi''] =
     [example_incident ''Nairobi'', example_incident ''Nairobi'']"
    by (simp add: apply_filters_def c)
  have n: "example_incident ''Nairobi'' \<noteq> example_incident ''Mombasa''"
    using c by auto
  from filter_by_county [OF h, of "[example_incident ''Nairobi'', example_incident ''Mombasa'', example_incident ''Nairobi'']"]
    h v c n
  show ?thesis by simp
qed

subsection \<open>The example session, evaluated\<close>

lemma example_detections:
  "fst (detect_weapons () (Some example_detector)) = [example_rifle, example_knife]"
  by (simp add: detect_weapons_def example_detector_def fixed_detector_def example_result_def
      weapon_keywords_def keyword_matches_def split_def is_space_def lower_def WEAPON_SEVERITY_def
      example_rifle_def example_knife_def)

lemma example_aggregate:
  "analyze_threat_level [example_rifle, example_knife] () =
     (red_circle @ '' Red'', ''SERIOUS-URGENT'',
      ''Immediate action required - High-risk weapons detected'')"
  by (simp add: analyze_threat_level_def example_rifle_def)

lemma example_analyze_click:
  "analyze_click (Some example_detector) () () True s = s\<lparr>analysis_results := Some example_analysis\<rparr>"
  by (simp add: analyze_click_def example_detections example_aggregate example_analysis_def)

lemma example_submit_click:
  "analysis_results s = Some ar \<Longrightarrow>
   submit_click loc t1 t2 True s =
     \<lparr>incidents = incidents s @ [make_incident ar loc t1 t2], analysis_results = None\<rparr>"
  by (simp add: submit_click_def)

lemma example_run:
  "run (Some example_detector) () example_first_visit =
     \<lparr>incidents = [example_incident ''Nairobi''], analysis_results = None\<rparr>"
  "run (Some example_detector) () (example_first_visit @ example_second_visit) =
     \<lparr>incidents = [example_incident ''Nairobi'', example_second_incident], analysis_results = None\<rparr>"
  by (simp_all add: run_def run_from_def example_first_visit_def example_second_visit_def
      initial_state_def example_analyze_click example_submit_click example_incident_def
      example_second_incident_def)

lemma example_ids:
  "id' (example_incident c) = ''INC_20240307_090542''"
  "id' example_second_incident = ''INC_20240307_090542''"
  by (simp_all add: example_incident_def example_second_incident_def make_incident_def
      directive_def zfill_def decimal.simps digit_char_def example_time_def)

lemma example_counties:
  "county (location (example_incident c)) = c"
  "county (location example_second_incident) = ''Mombasa''"
  by (simp_all add: example_incident_def example_second_incident_def make_incident_def
      example_location_def)

subsection \<open>Incident store\<close>

lemma id_format:
  "strftime ''%Y%m%d_%H%M%S'' t =
     zfill 4 (decimal (year t)) @ zfill 2 (decimal (month t)) @ zfill 2 (decimal (day t)) @
     ''_'' @ zfill 2 (decimal (hour t)) @ zfill 2 (decimal (minute t)) @
     zfill 2 (decimal (second t))"
  by (simp add: directive_def)

lemma step_incidents:
  "incidents (step od sa e s) = incidents s \<or>
   (\<exists>loc now_id now_ts report_ok ar.
      e = SubmitIncident loc now_id now_ts report_ok \<and> analysis_results s = Some ar \<and>
      incidents (step od sa e s) = incidents s @ [make_incident ar loc now_id now_ts])"
  by (cases e) (auto simp: analyze_click_def submit_click_def Let_def split: option.splits)

lemma step_prefix: "prefix (incidents s) (incidents (step od sa e s))"
  using step_incidents [of od sa e s] by auto

lemma run_from_prefix: "prefix (incidents s) (incidents (run_from od sa s events))"
proof (induction events arbitrary: s)
  case Nil
  show ?case by (simp add: run_from_def)
next
  case (Cons e events)
  have "prefix (incidents s) (incidents (step od sa e s))" by (rule step_prefix)
  also have "prefix (incidents (step od sa e s)) (incidents (run_from od sa (step od sa e s) events))"
    by (rule Cons.IH)
  finally show ?case by (simp add: run_from_def)
qed

lemma apply_filters_scan:
  "apply_filters fc fs fstat incs =
     filter (\<lambda>i. (fc = ''All'' \<or> county (location i) = fc) \<and>
                 (fs = ''All'' \<or> incident.severity i = fs) \<and>
                 (fstat = ''All'' \<or> status i = fstat)) incs"
  by (auto simp: apply_filters_def intro: filter_cong)

text \<open>
  Claim C9. One interaction leaves the incident list as it is or, when it is a
  submission, appends one incident at its end; so after any sequence of interactions
  the list starts with the incidents it held before, unchanged. Showing the history page
  leaves the session state as it is, and the page lists the incidents that pass the
  three filters, found in one pass over the stored list and in its order.
\<close>

theorem incident_store_append_only:
  "(incidents (step od sa e s) = incidents s \<or>
    (\<exists>loc now_id now_ts report_ok ar.
       e = SubmitIncident loc now_id now_ts report_ok \<and> analysis_results s = Some ar \<and>
       incidents (step od sa e s) = incidents s @ [make_incident ar loc now_id now_ts])) \<and>
   prefix (incidents s) (incidents (run_from od sa s events)) \<and>
   step od sa (ViewHistory filter_county filter_severity filter_status) s = s \<and>
   history_page filter_county filter_severity filter_status s =
     filter (\<lambda>i. (filter_county = ''All'' \<or> county (location i) = filter_county) \<and>
                 (filter_severity = ''All'' \<or> incident.severity i = filter_severity) \<and>
                 (filter_status = ''All'' \<or> status i = filter_status)) (incidents s) \<and>
   subseq (history_page filter_county filter_severity filter_status s) (incidents s)"
proof (intro conjI)
  show "incidents (step od sa e s) = incidents s \<or>
    (\<exists>loc now_id now_ts report_ok ar.
       e = SubmitIncident loc now_id now_ts report_ok \<and> analysis_results s = Some ar \<and>
       incidents (step od sa e s) = incidents s @ [make_incident ar loc now_id now_ts])"
    by (rule step_incidents)
  show "prefix (incidents s) (incidents (run_from od sa s events))"
    by (rule run_from_prefix)
  show "step od sa (ViewHistory filter_county filter_severity filter_status) s = s"
    by simp
  show "history_page filter_county filter_severity filter_status s =
     filter (\<lambda>i. (filter_county = ''All'' \<or> county (location i) = filter_county) \<and>
                 (filter_severity = ''All'' \<or> incident.severity i = filter_severity) \<and>
                 (filter_status = ''All'' \<or> status i = filter_status)) (incidents s)"
    by (simp only: history_page_def apply_filters_scan)
  then show "subseq (history_page filter_county filter_severity filter_status s) (incidents s)"
    by simp
qed

theorem incident_store_append_only_witness:
  "map id' (incidents (run (Some example_detector) () example_first_visit)) =
     [''INC_20240307_090542''] \<and>
   prefix (incidents (run (Some example_detector) () example_first_visit))
     (incidents (run_from (Some example_detector) ()
        (run (Some example_detector) () example_first_visit) example_second_visit)) \<and>
   step (Some example_detector) () (ViewHistory ''Nairobi'' ''All'' ''All'')
     (run (Some example_detector) () example_first_visit) =
     run (Some example_detector) () example_first_visit \<and>
   map (county \<circ> location) (history_page ''Nairobi'' ''All'' ''All''
     (run (Some example_detector) () (example_first_visit @ example_second_visit))) = [''Nairobi''] \<and>
   map (county \<circ> location) (history_page ''All'' ''All'' ''All''
     (run (Some example_detector) () (example_first_visit @ example_second_visit))) =
     [''Nairobi'', ''Mombasa'']"
proof -
  have r: "map id' (incidents (run (Some example_detector) () example_first_visit)) =
     [''INC_20240307_090542'']"
    by (simp add: example_run example_ids)
  have h1: "map (county \<circ> location) (history_page ''Nairobi'' ''All'' ''All''
     (run (Some example_detector) () (example_first_visit @ example_second_visit))) = [''Nairobi'']"
    by (simp add: example_run history_page_def apply_filters_def example_counties)
  have h2: "map (county \<circ> location) (history_page ''All'' ''All'' ''All''
     (run (Some example_detector) () (example_first_visit @ example_second_visit))) =
     [''Nairobi'', ''Mombasa'']"
    by (simp add: example_run history_page_def apply_filters_def example_counties)
  from incident_store_append_only [where od = "Some example_detector" and sa = "()"
      and s = "run (Some example_detector) () example_first_visit"
      and events = example_second_visit
      and filter_county = "''Nairobi''" and filter_severity = "''All''" and filter_status = "''All''"]
    r h1 h2
  show ?thesis by simp
qed

subsection \<open>Derived fields of the incidents\<close>

lemma analyze_any_sa: "analyze_threat_level ds sa = analyze_threat_level ds ()"
  by (simp add: analyze_threat_level_def)

lemma table_entry_cases:
  "WEAPON_SEVERITY k = Some e \<Longrightarrow>
   (severity_entry.risk e = ''High'' \<and> severity_entry.alert_level e = red_circle @ '' Red'' \<and>
      severity_entry.severity e = ''SERIOUS-URGENT'') \<or>
   (severity_entry.risk e = ''Medium'' \<and> severity_entry.alert_level e = yellow_circle @ '' Yellow'' \<and>
      severity_entry.severity e = ''SERIOUS'') \<or>
   (severity_entry.risk e = ''Low'' \<and> severity_entry.alert_level e = green_circle @ '' Green'' \<and>
      severity_entry.severity e = ''LOW'')"
  by (auto simp: WEAPON_SEVERITY_def split: if_splits)

lemma from_table_cases:
  "from_table d \<Longrightarrow>
   (detection.risk d = ''High'' \<and> detection.alert_level d = red_circle @ '' Red'' \<and>
      detection.severity d = ''SERIOUS-URGENT'') \<or>
   (detection.risk d = ''Medium'' \<and> detection.alert_level d = yellow_circle @ '' Yellow'' \<and>
      detection.severity d = ''SERIOUS'') \<or>
   (detection.risk d = ''Low'' \<and> detection.alert_level d = green_circle @ '' Green'' \<and>
      detection.severity d = ''LOW'')"
  using table_entry_cases [of "weapon d" "table_entry_of d"]
  by (simp add: from_table_def table_entry_of_def)

lemma item_detections_from_table: "d \<in> set (item_detections r) \<Longrightarrow> from_table d"
proof -
  assume "d \<in> set (item_detections r)"
  then obtain k where k: "k \<in> set [''knife'', ''gun'', ''pistol'', ''rifle'', ''stick'']"
    and d: "d = table_detection r k"
    unfolding item_detections_eq by (auto split: if_splits)
  from table_detection_fields [OF k, of r] show ?thesis
    by (simp add: d weapon_table_detection from_table_def)
qed

lemma detect_weapons_from_table: "list_all from_table (fst (detect_weapons im od))"
  by (auto simp: detect_weapons_def scan_results_concat list_all_iff item_detections_from_table
      split: option.splits sum.splits)

lemma aggregate_high:
  "\<exists>d \<in> set ds. detection.risk d = ''High'' \<Longrightarrow>
   analyze_threat_level ds sa = (red_circle @ '' Red'', ''SERIOUS-URGENT'',
      ''Immediate action required - High-risk weapons detected'')"
proof -
  assume h: "\<exists>d \<in> set ds. detection.risk d = ''High''"
  then have "ds \<noteq> []" by auto
  with h show ?thesis by (simp add: analyze_threat_level_def risk_in_levels del: set_map)
qed

lemma aggregate_medium:
  "\<not> (\<exists>d \<in> set ds. detection.risk d = ''High'') \<Longrightarrow> \<exists>d \<in> set ds. detection.risk d = ''Medium'' \<Longrightarrow>
   analyze_threat_level ds sa = (yellow_circle @ '' Yellow'', ''SERIOUS'',
         ''Caution advised - Medium-risk weapons detected'')"
proof -
  assume nh: "\<not> (\<exists>d \<in> set ds. detection.risk d = ''High'')"
    and m: "\<exists>d \<in> set ds. detection.risk d = ''Medium''"
  then have "ds \<noteq> []" by auto
  with nh m show ?thesis by (simp add: analyze_threat_level_def risk_in_levels del: set_map)
qed

lemma aggregate_low:
  "ds \<noteq> [] \<Longrightarrow> \<not> (\<exists>d \<in> set ds. detection.risk d = ''High'') \<Longrightarrow>
   \<not> (\<exists>d \<in> set ds. detection.risk d = ''Medium'') \<Longrightarrow>
   analyze_threat_level ds sa = (green_circle @ '' Green'', ''LOW'',
         ''Monitor situation - Low-risk items detected'')"
  by (simp add: analyze_threat_level_def risk_in_levels del: set_map)

lemma aggregate_of_maximum:
  assumes ne: "ds \<noteq> []" and tab: "list_all from_table ds"
  shows "\<exists>d \<in> set ds.
           (\<forall>d' \<in> set ds. risk_precedence (detection.risk d') \<le> risk_precedence (detection.risk d)) \<and>
           fst (analyze_threat_level ds sa) = detection.alert_level d \<and>
           fst (snd (analyze_threat_level ds sa)) = detection.severity d"
proof -
  have cases: "\<And>d. d \<in> set ds \<Longrightarrow>
   (detection.risk d = ''High'' \<and> detection.alert_level d = red_circle @ '' Red'' \<and>
      detection.severity d = ''SERIOUS-URGENT'') \<or>
   (detection.risk d = ''Medium'' \<and> detection.alert_level d = yellow_circle @ '' Yellow'' \<and>
      detection.severity d = ''SERIOUS'') \<or>
   (detection.risk d = ''Low'' \<and> detection.alert_level d = green_circle @ '' Green'' \<and>
      detection.severity d = ''LOW'')"
    using tab by (simp add: list_all_iff from_table_cases)
  consider (high) "\<exists>d \<in> set ds. detection.risk d = ''High''"
    | (medium) "\<not> (\<exists>d \<in> set ds. detection.risk d = ''High'')" "\<exists>d \<in> set ds. detection.risk d = ''Medium''"
    | (low) "\<not> (\<exists>d \<in> set ds. detection.risk d = ''High'')" "\<not> (\<exists>d \<in> set ds. detection.risk d = ''Medium'')"
    by blast
  then show ?thesis
  proof cases
    case high
    then obtain d where d: "d \<in> set ds" "detection.risk d = ''High''" by blast
    have top: "\<forall>d' \<in> set ds. risk_precedence (detection.risk d') \<le> risk_precedence (detection.risk d)"
      by (simp add: d risk_precedence_def)
    from cases [OF d(1)] d(2)
    have f: "detection.alert_level d = red_circle @ '' Red''" "detection.severity d = ''SERIOUS-URGENT''"
      by simp_all
    from aggregate_high [OF high, of sa] f
    have v: "fst (analyze_threat_level ds sa) = detection.alert_level d"
      "fst (snd (analyze_threat_level ds sa)) = detection.severity d"
      by simp_all
    from d(1) top v show ?thesis by blast
  next
    case medium
    then obtain d where d: "d \<in> set ds" "detection.risk d = ''Medium''" by blast
    have top: "\<forall>d' \<in> set ds. risk_precedence (detection.risk d') \<le> risk_precedence (detection.risk d)"
      using medium(1) by (auto simp: d risk_precedence_def)
    from cases [OF d(1)] d(2)
    have f: "detection.alert_level d = yellow_circle @ '' Yellow''" "detection.severity d = ''SERIOUS''"
      by simp_all
    from aggregate_medium [OF medium, of sa] f
    have v: "fst (analyze_threat_level ds sa) = detection.alert_level d"
      "fst (snd (analyze_threat_level ds sa)) = detection.severity d"
      by simp_all
    from d(1) top v show ?thesis by blast
  next
    case low
    from ne obtain d where d: "d \<in> set ds" by (cases ds) auto
    have all_low: "\<forall>d' \<in> set ds. detection.risk d' = ''Low''"
      using cases low by blast
    have top: "\<forall>d' \<in> set ds. risk_precedence (detection.risk d') \<le> risk_precedence (detection.risk d)"
      using all_low d by simp
    from cases [OF d] all_low d
    have f: "detection.alert_level d = green_circle @ '' Green''" "detection.severity d = ''LOW''"
      by auto
    from aggregate_low [OF ne low, of sa] f
    have v: "fst (analyze_threat_level ds sa) = detection.alert_level d"
      "fst (snd (analyze_threat_level ds sa)) = detection.severity d"
      by simp_all
    from d(1) top v show ?thesis by blast
  qed
qed

lemma session_ok_initial: "session_ok initial_state"
  by (simp add: session_ok_def initial_state_def)

lemma session_ok_analyze:
  "session_ok s \<Longrightarrow> session_ok (analyze_click od sa im display_ok s)"
  using detect_weapons_from_table [of im od]
  by (auto simp: session_ok_def analyze_click_def Let_def derived_ok_def
      analyze_any_sa [of _ sa] analyze_threat_level_def)

lemma session_ok_submit:
  "session_ok s \<Longrightarrow> session_ok (submit_click loc now_id now_ts report_ok s)"
  by (auto simp: session_ok_def submit_click_def Let_def make_incident_def split: option.splits)

lemma session_ok_step: "session_ok s \<Longrightarrow> session_ok (step od sa e s)"
  by (cases e) (simp_all add: session_ok_analyze session_ok_submit)

lemma session_ok_run_from: "session_ok s \<Longrightarrow> session_ok (run_from od sa s events)"
proof (induction events arbitrary: s)
  case Nil
  then show ?case by (simp add: run_from_def)
next
  case (Cons e events)
  from Cons.prems have "session_ok (step od sa e s)" by (rule session_ok_step)
  then have "session_ok (run_from od sa (step od sa e s) events)" by (rule Cons.IH)
  then show ?case by (simp add: run_from_def)
qed

lemma run_append: "run od sa (events @ later) = run_from od sa (run od sa events) later"
  by (simp add: run_def run_from_def)

text \<open>
  Claim C4. After any sequence of interactions from the initial state, the alert level
  and the severity of every stored incident are those the aggregator gives for the
  incident's detections; when the incident has detections, they are the alert level and
  severity of one of them whose risk no other precedes. The stored incidents stay as
  they are, at the head of the list, whatever interactions follow.
\<close>

theorem incident_derived_fields:
  "(\<forall>i \<in> set (incidents (run od sa events)).
      incident.alert_level i = fst (analyze_threat_level (incident.detected_weapons i) sa') \<and>
      incident.severity i = fst (snd (analyze_threat_level (incident.detected_weapons i) sa')) \<and>
      (incident.detected_weapons i \<noteq> [] \<longrightarrow>
         (\<exists>d \<in> set (incident.detected_weapons i).
            (\<forall>d' \<in> set (incident.detected_weapons i).
               risk_precedence (detection.risk d') \<le> risk_precedence (detection.risk d)) \<and>
            incident.alert_level i = detection.alert_level d \<and>
            incident.severity i = detection.severity d))) \<and>
   prefix (incidents (run od sa events)) (incidents (run od sa (events @ later)))"
proof (intro conjI ballI impI)
  have ok: "session_ok (run od sa events)"
    unfolding run_def by (rule session_ok_run_from [OF session_ok_initial])
  fix i assume i: "i \<in> set (incidents (run od sa events))"
  with ok have d: "derived_ok (incident.detected_weapons i) (incident.alert_level i) (incident.severity i)"
    by (simp add: session_ok_def list_all_iff)
  from d show a: "incident.alert_level i = fst (analyze_threat_level (incident.detected_weapons i) sa')"
    by (simp add: derived_ok_def analyze_any_sa [of _ sa'])
  from d show b: "incident.severity i = fst (snd (analyze_threat_level (incident.detected_weapons i) sa'))"
    by (simp add: derived_ok_def analyze_any_sa [of _ sa'])
  assume ne: "incident.detected_weapons i \<noteq> []"
  from d have "list_all from_table (incident.detected_weapons i)" by (simp add: derived_ok_def)
  from aggregate_of_maximum [OF ne this, of sa'] a b
  show "\<exists>d \<in> set (incident.detected_weapons i).
            (\<forall>d' \<in> set (incident.detected_weapons i).
               risk_precedence (detection.risk d') \<le> risk_precedence (detection.risk d)) \<and>
            incident.alert_level i = detection.alert_level d \<and>
            incident.severity i = detection.severity d"
    by simp
next
  show "prefix (incidents (run od sa events)) (incidents (run od sa (events @ later)))"
    by (simp only: run_append run_from_prefix)
qed

theorem incident_derived_fields_witness:
  "example_incident ''Nairobi'' \<in> set (incidents (run (Some example_detector) () example_first_visit)) \<and>
   incident.detected_weapons (example_incident ''Nairobi'') = [example_rifle, example_knife] \<and>
   incident.alert_level (example_incident ''Nairobi'') =
     fst (analyze_threat_level [example_rifle, example_knife] ()) \<and>
   incident.severity (example_incident ''Nairobi'') =
     fst (snd (analyze_threat_level [example_rifle, example_knife] ())) \<and>
   incident.alert_level (example_incident ''Nairobi'') = detection.alert_level example_rifle \<and>
   incident.severity (example_incident ''Nairobi'') = ''SERIOUS-URGENT'' \<and>
   incidents (run (Some example_detector) () (example_first_visit @ example_second_visit)) =
     incidents (run (Some example_detector) () example_first_visit) @ [example_second_incident]"
proof -
  have m: "example_incident ''Nairobi'' \<in> set (incidents (run (Some example_detector) () example_first_visit))"
    by (simp add: example_run)
  have w: "incident.detected_weapons (example_incident ''Nairobi'') = [example_rifle, example_knife]"
    by (simp add: example_incident_def make_incident_def example_analysis_def)
  have f: "incident.alert_level (example_incident ''Nairobi'') = detection.alert_level example_rifle"
    "incident.severity (example_incident ''Nairobi'') = ''SERIOUS-URGENT''"
    by (simp_all add: example_incident_def make_incident_def example_analysis_def example_rifle_def)
  have r: "incidents (run (Some example_detector) () (example_first_visit @ example_second_visit)) =
     incidents (run (Some example_detector) () example_first_visit) @ [example_second_incident]"
    by (simp add: example_run)
  from incident_derived_fields [where od = "Some example_detector" and sa = "()" and sa' = "()"
      and events = example_first_visit and later = example_second_visit] m
  have "incident.alert_level (example_incident ''Nairobi'') =
      fst (analyze_threat_level (incident.detected_weapons (example_incident ''Nairobi'')) ()) \<and>
    incident.severity (example_incident ''Nairobi'') =
      fst (snd (analyze_threat_level (incident.detected_weapons (example_incident ''Nairobi'')) ()))"
    by blast
  with m w f r show ?thesis by simp
qed

subsection \<open>Incident ids\<close>

text \<open>
  Claim C10. A submission appends an incident whose id is \<^verbatim>\<open>INC_\<close> followed by the
  year, month, day, an underscore, and the hour, minute and second of the clock reading,
  and by nothing finer. Two submissions whose clock readings fall in the same second get
  the same id, so that the ids in the store are not all different once the second
  incident is stored beside the first.
\<close>

theorem incident_id_one_second:
  "analysis_results s = Some ar \<Longrightarrow>
   incidents (submit_click loc now_id now_ts report_ok s) =
     incidents s @ [make_incident ar loc now_id now_ts] \<and>
   id' (make_incident ar loc now_id now_ts) =
     ''INC_'' @ zfill 4 (decimal (year now_id)) @ zfill 2 (decimal (month now_id)) @
     zfill 2 (decimal (day now_id)) @ ''_'' @ zfill 2 (decimal (hour now_id)) @
     zfill 2 (decimal (minute now_id)) @ zfill 2 (decimal (second now_id)) \<and>
   (same_second now_id t' \<longrightarrow>
      id' (make_incident ar' loc' t' ts') = id' (make_incident ar loc now_id now_ts)) \<and>
   (same_second now_id t' \<and> analysis_results s' = Some ar' \<and>
    prefix (incidents (submit_click loc now_id now_ts report_ok s)) (incidents s') \<longrightarrow>
      \<not> distinct (map id' (incidents (submit_click loc' t' ts' report_ok' s'))))"
proof (intro conjI impI)
  assume ar: "analysis_results s = Some ar"
  then show app: "incidents (submit_click loc now_id now_ts report_ok s) =
     incidents s @ [make_incident ar loc now_id now_ts]"
    by (simp add: submit_click_def Let_def)
  show "id' (make_incident ar loc now_id now_ts) =
     ''INC_'' @ zfill 4 (decimal (year now_id)) @ zfill 2 (decimal (month now_id)) @
     zfill 2 (decimal (day now_id)) @ ''_'' @ zfill 2 (decimal (hour now_id)) @
     zfill 2 (decimal (minute now_id)) @ zfill 2 (decimal (second now_id))"
    by (simp only: make_incident_def id_format incident.simps)
  have same: "same_second now_id t' \<Longrightarrow>
      id' (make_incident ar' loc' t' ts') = id' (make_incident ar loc now_id now_ts)" for ar' :: "'b analysis" and loc' ts'
    by (simp only: make_incident_def id_format incident.simps) (simp add: same_second_def)
  { assume "same_second now_id t'"
    then show "id' (make_incident ar' loc' t' ts') = id' (make_incident ar loc now_id now_ts)"
      by (rule same) }
  assume a: "same_second now_id t' \<and> analysis_results s' = Some ar' \<and>
    prefix (incidents (submit_click loc now_id now_ts report_ok s)) (incidents s')"
  then obtain rest where rest: "incidents s' = incidents s @ [make_incident ar loc now_id now_ts] @ rest"
    by (auto simp: app prefix_def)
  from a have "incidents (submit_click loc' t' ts' report_ok' s') =
      incidents s' @ [make_incident ar' loc' t' ts']"
    by (simp add: submit_click_def Let_def)
  moreover from a have "id' (make_incident ar' loc' t' ts') = id' (make_incident ar loc now_id now_ts)"
    by (simp add: same)
  ultimately show "\<not> distinct (map id' (incidents (submit_click loc' t' ts' report_ok' s')))"
    by (simp add: rest)
qed

theorem incident_id_one_second_witness:
  "analysis_results (analyze_click (Some example_detector) () () True initial_state) =
     Some example_analysis \<and>
   same_second (example_time 0) (example_time 500000) \<and>
   example_time 0 \<noteq> example_time 500000 \<and>
   id' (example_incident ''Nairobi'') = ''INC_20240307_090542'' \<and>
   id' example_second_incident = id' (example_incident ''Nairobi'') \<and>
   map id' (incidents (run (Some example_detector) () (example_first_visit @ example_second_visit))) =
     [''INC_20240307_090542'', ''INC_20240307_090542'']"
proof -
  have h: "analysis_results (analyze_click (Some example_detector) () () True initial_state) =
     Some example_analysis"
    by (simp add: example_analyze_click)
  have ss: "same_second (example_time 0) (example_time 500000)"
    by (simp add: same_second_def example_time_def)
  have ne: "example_time 0 \<noteq> example_time 500000"
    by (simp add: example_time_def)
  have ids: "map id' (incidents (run (Some example_detector) () (example_first_visit @ example_second_visit))) =
     [''INC_20240307_090542'', ''INC_20240307_090542'']"
    by (simp add: example_run example_ids)
  from incident_id_one_second [OF h, where loc = "example_location ''Nairobi''"
      and now_id = "example_time 0" and now_ts = "example_time 7" and t' = "example_time 500000"
      and ar' = "example_analysis" and loc' = "example_location ''Mombasa''"
      and ts' = "example_time 500007"] ss
  have "id' example_second_incident = id' (example_incident ''Nairobi'')"
    by (simp add: example_second_incident_def example_incident_def)
  with h ss ne ids show ?thesis by (simp add: example_ids)
qed

subsection \<open>JSON export\<close>

lemma less_16_cases:
  "(k::nat) < 16 \<Longrightarrow> k = 0 \<or> k = 1 \<or> k = 2 \<or> k = 3 \<or> k = 4 \<or> k = 5 \<or> k = 6 \<or> k = 7 \<or>
     k = 8 \<or> k = 9 \<or> k = 10 \<or> k = 11 \<or> k = 12 \<or> k = 13 \<or> k = 14 \<or> k = 15"
  by presburger

lemma less_10_cases:
  "(k::nat) < 10 \<Longrightarrow> k = 0 \<or> k = 1 \<or> k = 2 \<or> k = 3 \<or> k = 4 \<or> k = 5 \<or> k = 6 \<or> k = 7 \<or>
     k = 8 \<or> k = 9"
  by presburger

lemma hexval_hexdigit: "k < 16 \<Longrightarrow> hexval (hexdigit k) = Some k"
  using less_16_cases [of k] by (auto simp: hexval_def hexdigit_def)

lemma hexval_hexdigit_mod: "hexval (hexdigit k) = Some (k mod 16)"
proof -
  have "hexdigit k = hexdigit (k mod 16)" by (simp add: hexdigit_def)
  then show ?thesis by (simp add: hexval_hexdigit)
qed

lemma hexdigit_not_special: "hexdigit k \<noteq> bslash" "hexdigit k \<noteq> dquote"
  using less_16_cases [of "k mod 16"] by (auto simp: hexdigit_def bslash_def dquote_def)

lemma hex_digits_value:
  "((n div 4096 mod 16 * 16 + n div 256 mod 16) * 16 + n div 16 mod 16) * 16 + n mod 16 =
   (n::nat) mod 65536"
proof -
  define A where "A = n div 4096 mod 16"
  define B where "B = n div 256 mod 16"
  define C where "C = n div 16 mod 16"
  define D where "D = n mod 16"
  define M1 where "M1 = n mod 256"
  define M2 where "M2 = n mod 4096"
  define M3 where "M3 = n mod 65536"
  have a: "M1 = 16 * C + D"
    using mod_mult2_eq [of n 16 16] by (simp add: M1_def C_def D_def)
  have b: "M2 = 256 * B + M1"
    using mod_mult2_eq [of n 256 16] by (simp add: M2_def B_def M1_def)
  have c: "M3 = 4096 * A + M2"
    using mod_mult2_eq [of n 4096 16] by (simp add: M3_def A_def M2_def)
  have "((A * 16 + B) * 16 + C) * 16 + D = M3"
    using a b c by simp
  then show ?thesis
    by (simp only: A_def B_def C_def D_def M3_def)
qed

lemma decode_hex4: "n < 65536 \<Longrightarrow> decode_uXXXX (hex4 n @ rest) = Some n"
proof -
  assume n: "n < 65536"
  have "map hexval (take 4 (hex4 n @ rest)) =
      [Some (n div 4096 mod 16), Some (n div 256 mod 16), Some (n div 16 mod 16), Some (n mod 16)]"
    by (simp add: hex4_def hexval_hexdigit_mod del: mod_less)
  then have "decode_uXXXX (hex4 n @ rest) = Some (n mod 65536)"
    by (simp only: decode_uXXXX_def list.case option.case hex_digits_value)
  with n show ?thesis by simp
qed

lemma char_of_printable:
  assumes "0x20 \<le> c" "c \<le> 0x7E" "c \<noteq> 0x22" "c \<noteq> 0x5C"
  shows "char_of (c::nat) \<noteq> dquote" "char_of c \<noteq> bslash" "(of_char (char_of c) :: nat) = c"
proof -
  from assms have m: "c mod 256 = c" by simp
  then show v: "(of_char (char_of c) :: nat) = c" by simp
  show "char_of c \<noteq> dquote"
  proof
    assume "char_of c = dquote"
    then have "(of_char (char_of c) :: nat) = of_char dquote" by simp
    with v assms show False by (simp add: dquote_def)
  qed
  show "char_of c \<noteq> bslash"
  proof
    assume "char_of c = bslash"
    then have "(of_char (char_of c) :: nat) = of_char bslash" by simp
    with v assms show False by (simp add: bslash_def)
  qed
qed

lemma length_hex4: "length (hex4 n) = 4"
  by (simp add: hex4_def)

lemma read_escape_u:
  assumes "n < 65536" "\<not> (0xD800 \<le> n \<and> n \<le> 0xDBFF)"
  shows "read_escape (CHR ''u'' # hex4 n @ s) = Some (n, 5)"
proof -
  have d1: "decode_uXXXX (hex4 n @ s) = Some n"
    using assms(1) by (rule decode_hex4)
  have c: "(0xD800 \<le> n \<and> n \<le> 0xDBFF \<and> X) = False" for X
    using assms(2) by blast
  show ?thesis
    unfolding read_escape_def by (simp only: list.case d1 option.case c if_True if_False) simp
qed

lemma read_escape_pair:
  assumes hi: "0xD800 \<le> hi" "hi \<le> 0xDBFF" and lo: "0xDC00 \<le> lo" "lo \<le> 0xDFFF"
  shows "read_escape (CHR ''u'' # hex4 hi @ [bslash, CHR ''u''] @ hex4 lo @ s) =
     Some (0x10000 + ((hi - 0xD800) * 1024 + (lo - 0xDC00)), 11)"
proof -
  obtain a b c d where h: "hex4 hi = [a, b, c, d]" by (simp add: hex4_def)
  from hi have "hi < 65536" by simp
  then have d1: "decode_uXXXX (hex4 hi @ [bslash, CHR ''u''] @ hex4 lo @ s) = Some hi"
    by (rule decode_hex4)
  from lo have "lo < 65536" by simp
  then have d2: "decode_uXXXX (hex4 lo @ s) = Some lo"
    by (rule decode_hex4)
  have t: "take 2 (drop 4 (hex4 hi @ [bslash, CHR ''u''] @ hex4 lo @ s)) = [bslash, CHR ''u'']"
    "drop 6 (hex4 hi @ [bslash, CHR ''u''] @ hex4 lo @ s) = hex4 lo @ s"
    by (simp_all add: h)
  have c1: "(0xD800 \<le> hi \<and> hi \<le> 0xDBFF \<and> [bslash, CHR ''u''] = [bslash, CHR ''u'']) = True"
    using hi by simp
  have c2: "(0xDC00 \<le> lo \<and> lo \<le> 0xDFFF) = True"
    using lo by simp
  show ?thesis
    unfolding read_escape_def
    by (simp only: list.case d1 t d2 option.case c1 c2 if_True) simp
qed

lemma scanstring_short_escape:
  "read_escape (e # s) = Some (c, 1) \<Longrightarrow>
   scanstring (bslash # e # s) =
     (case scanstring s of None \<Rightarrow> None | Some (t, r) \<Rightarrow> Some (c # t, r))"
  by (simp add: bslash_def dquote_def)

lemma read_short_escapes:
  "read_escape (dquote # s) = Some (0x22, 1)"
  "read_escape (bslash # s) = Some (0x5C, 1)"
  "read_escape (CHR ''n'' # s) = Some (0x0A, 1)"
  "read_escape (CHR ''r'' # s) = Some (0x0D, 1)"
  "read_escape (CHR ''t'' # s) = Some (0x09, 1)"
  "read_escape (CHR ''b'' # s) = Some (0x08, 1)"
  "read_escape (CHR ''f'' # s) = Some (0x0C, 1)"
  by (simp_all add: read_escape_def bslash_def dquote_def)

lemma escape_char_short:
  "escape_char 0x22 = [bslash, dquote]" "escape_char 0x5C = [bslash, bslash]"
  "escape_char 0x0A = [bslash, CHR ''n'']" "escape_char 0x0D = [bslash, CHR ''r'']"
  "escape_char 0x09 = [bslash, CHR ''t'']" "escape_char 0x08 = [bslash, CHR ''b'']"
  "escape_char 0x0C = [bslash, CHR ''f'']"
  by (simp_all add: escape_char_def)

lemma escape_char_plain:
  "\<not> short_escaped c \<Longrightarrow> 0x20 \<le> c \<Longrightarrow> c \<le> 0x7E \<Longrightarrow> escape_char c = [char_of c]"
  by (simp add: escape_char_def short_escaped_def)

lemma escape_char_bmp:
  "\<not> short_escaped c \<Longrightarrow> \<not> (0x20 \<le> c \<and> c \<le> 0x7E) \<Longrightarrow> c < 0x10000 \<Longrightarrow>
   escape_char c = bslash # CHR ''u'' # hex4 c"
  by (simp add: escape_char_def short_escaped_def)

lemma escape_char_astral:
  "0x10000 \<le> c \<Longrightarrow>
   escape_char c =
     bslash # CHR ''u'' # hex4 (0xD800 + (c - 0x10000) div 1024 mod 1024) @
     [bslash, CHR ''u''] @ hex4 (0xDC00 + (c - 0x10000) mod 1024)"
  by (simp add: escape_char_def)

lemma scanstring_escape_char:
  assumes sc: "is_scalar c"
  shows "scanstring (escape_char c @ s) =
     (case scanstring s of None \<Rightarrow> None | Some (t, r) \<Rightarrow> Some (c # t, r))"
proof (cases "short_escaped c")
  case True
  then show ?thesis
    unfolding short_escaped_def
    by (elim disjE)
      (simp_all only: escape_char_short append_Cons append_Nil
        scanstring_short_escape [OF read_short_escapes(1)]
        scanstring_short_escape [OF read_short_escapes(2)]
        scanstring_short_escape [OF read_short_escapes(3)]
        scanstring_short_escape [OF read_short_escapes(4)]
        scanstring_short_escape [OF read_short_escapes(5)]
        scanstring_short_escape [OF read_short_escapes(6)]
        scanstring_short_escape [OF read_short_escapes(7)])
next
  case ns: False
  have sp: "bslash \<noteq> dquote" by (simp add: bslash_def dquote_def)
  show ?thesis
  proof (cases "0x20 \<le> c \<and> c \<le> 0x7E")
    case True
    with ns have p: "0x20 \<le> c" "c \<le> 0x7E" "c \<noteq> 0x22" "c \<noteq> 0x5C"
      by (simp_all add: short_escaped_def)
    from char_of_printable [OF p] p(1) show ?thesis
      by (simp add: escape_char_plain [OF ns p(1) p(2)] split: option.split)
  next
    case np: False
    show ?thesis
    proof (cases "c < 0x10000")
      case True
      from sc have nsur: "\<not> (0xD800 \<le> c \<and> c \<le> 0xDBFF)" by (auto simp: is_scalar_def)
      have dr: "drop 5 (CHR ''u'' # hex4 c @ s) = s" by (simp add: length_hex4)
      have "scanstring (bslash # CHR ''u'' # hex4 c @ s) =
          (case scanstring s of None \<Rightarrow> None | Some (t, r) \<Rightarrow> Some (c # t, r))"
        by (simp only: scanstring.simps sp if_False if_True simp_thms
            read_escape_u [OF True nsur, of s] option.case prod.case dr)
      then show ?thesis by (simp add: escape_char_bmp [OF ns np True])
    next
      case False
      then have astral: "0x10000 \<le> c" by simp
      define m where "m = c - 0x10000"
      define hi where "hi = 0xD800 + m div 1024 mod 1024"
      define lo where "lo = 0xDC00 + m mod 1024"
      from sc astral have "c < 0x110000" by (simp add: is_scalar_def)
      with astral have mlt: "m < 1048576" and cm: "c = 0x10000 + m" by (simp_all add: m_def)
      from mlt have dlt: "m div 1024 < 1024" by simp
      have hi: "0xD800 \<le> hi" "hi \<le> 0xDBFF" using dlt by (simp_all add: hi_def)
      have lo: "0xDC00 \<le> lo" "lo \<le> 0xDFFF" by (simp_all add: lo_def)
      have e: "escape_char c = bslash # CHR ''u'' # hex4 hi @ [bslash, CHR ''u''] @ hex4 lo"
        using escape_char_astral [OF astral] by (simp only: hi_def lo_def m_def)
      have v: "0x10000 + ((hi - 0xD800) * 1024 + (lo - 0xDC00)) = c"
        using dlt by (simp add: hi_def lo_def cm)
      have dr: "drop 11 (CHR ''u'' # hex4 hi @ [bslash, CHR ''u''] @ hex4 lo @ s) = s"
        by (simp add: length_hex4)
      have "scanstring (bslash # CHR ''u'' # hex4 hi @ [bslash, CHR ''u''] @ hex4 lo @ s) =
          (case scanstring s of None \<Rightarrow> None | Some (t, r) \<Rightarrow> Some (c # t, r))"
        by (simp only: scanstring.simps sp if_False if_True simp_thms
            read_escape_pair [OF hi lo, of s] option.case prod.case dr v)
      then show ?thesis by (simp add: e)
    qed
  qed
qed

lemma scanstring_escaped:
  "list_all is_scalar t \<Longrightarrow>
   scanstring (concat (map escape_char t) @ dquote # rest) = Some (t, rest)"
  by (induction t) (simp_all add: scanstring_escape_char)

lemma scan_basestring:
  "list_all is_scalar t \<Longrightarrow>
   encode_basestring_ascii t @ rest = dquote # concat (map escape_char t) @ dquote # rest"
  by (simp add: encode_basestring_ascii_def)

lemma is_digit_zero: "is_digit CHR ''0''"
  by (simp add: is_digit_def)

lemma digit_char_facts:
  "is_digit (digit_char n)" "(of_char (digit_char n) :: nat) - 48 = n mod 10"
  "digit_char n \<noteq> CHR ''-''" "(digit_char n = CHR ''0'') = (n mod 10 = 0)"
  using less_10_cases [of "n mod 10"]
  by (auto simp: digit_char_def is_digit_def)

lemma decimal_digits: "list_all is_digit (decimal n)"
  by (induction n rule: decimal.induct) (subst decimal.simps, simp add: digit_char_facts)

lemma decimal_shape:
  "\<exists>d ds. decimal n = d # ds \<and> is_digit d \<and> d \<noteq> CHR ''-'' \<and> list_all is_digit ds \<and>
     ((d = CHR ''0'') = (n = 0)) \<and> (n = 0 \<longrightarrow> ds = [])"
proof (induction n rule: decimal.induct)
  case (1 n)
  show ?case
  proof (cases "n < 10")
    case True
    then have "decimal n = [digit_char n]" by (subst decimal.simps) simp
    with True show ?thesis by (simp add: digit_char_facts)
  next
    case False
    then have e: "decimal n = decimal (n div 10) @ [digit_char n]" by (subst decimal.simps) simp
    from False have pos: "n div 10 \<noteq> 0" by simp
    from "1.IH" [OF False] obtain d ds where
      h: "decimal (n div 10) = d # ds" "is_digit d" "d \<noteq> CHR ''-''" "list_all is_digit ds"
         "(d = CHR ''0'') = (n div 10 = 0)"
      by auto
    from h pos False show ?thesis
      by (simp add: e digit_char_facts)
  qed
qed

lemma nat_of_digits_snoc:
  "nat_of_digits (ds @ [c]) = 10 * nat_of_digits ds + (of_char c - 48)"
  by (simp add: nat_of_digits_def)

lemma nat_of_digits_decimal: "nat_of_digits (decimal n) = n"
proof (induction n rule: decimal.induct)
  case (1 n)
  show ?case
  proof (cases "n < 10")
    case True
    then have "decimal n = [digit_char n]" by (subst decimal.simps) simp
    with True show ?thesis by (simp add: nat_of_digits_def digit_char_facts)
  next
    case False
    then have e: "decimal n = decimal (n div 10) @ [digit_char n]" by (subst decimal.simps) simp
    from "1.IH" [OF False] show ?thesis
      by (simp add: e nat_of_digits_snoc digit_char_facts)
  qed
qed

lemma number_run_digits: "list_all is_digit ds \<Longrightarrow> number_run NInt ds = Some NInt"
  by (induction ds) simp_all

lemma number_run_decimal:
  "st = NStart \<or> st = NMinus \<Longrightarrow>
   number_run st (decimal n) = Some (if n = 0 then NZero else NInt)"
proof -
  assume st: "st = NStart \<or> st = NMinus"
  from decimal_shape [of n] obtain d ds where
    h: "decimal n = d # ds" "is_digit d" "d \<noteq> CHR ''-''" "list_all is_digit ds"
       "(d = CHR ''0'') = (n = 0)" "n = 0 \<longrightarrow> ds = []"
    by blast
  from st h show ?thesis
    by (auto simp: number_run_digits)
qed

lemma int_literal_repr: "int_literal (int_repr i)"
  by (simp add: int_literal_def int_repr_def number_run_decimal)

lemma int_of_literal_repr: "int_of_literal (int_repr i) = i"
proof (cases "i < 0")
  case True
  then show ?thesis
    by (simp add: int_of_literal_def int_repr_def nat_of_digits_decimal)
next
  case False
  from decimal_shape [of "nat i"] obtain d ds where
    h: "decimal (nat i) = d # ds" "d \<noteq> CHR ''-''" by blast
  have "nat_of_digits (d # ds) = nat i"
    using nat_of_digits_decimal [of "nat i"] by (simp only: h)
  with False h(2) show ?thesis
    by (simp add: int_of_literal_def int_repr_def h(1))
qed

lemma number_step_char: "number_step st c = Some st' \<Longrightarrow> number_char c"
  by (cases st) (auto simp: number_char_def is_sign_def is_digit_zero split: if_splits)

lemma number_run_chars: "number_run st tok = Some st' \<Longrightarrow> list_all number_char tok"
  by (induction tok arbitrary: st) (auto split: option.splits dest: number_step_char)

lemma number_first:
  "number_run NStart tok = Some st \<Longrightarrow> st \<noteq> NStart \<Longrightarrow>
   \<exists>c cs. tok = c # cs \<and> (c = CHR ''-'' \<or> is_digit c)"
  by (cases tok) (auto simp: is_digit_zero split: option.splits if_splits)

lemma span_token:
  "list_all P tok \<Longrightarrow> (case rest of [] \<Rightarrow> True | c # r \<Rightarrow> \<not> P c) \<Longrightarrow>
   takeWhile P (tok @ rest) = tok \<and> dropWhile P (tok @ rest) = rest"
  by (induction tok) (auto split: list.splits)

lemma scan_number_int:
  "delimited rest \<Longrightarrow> scan_number fp (int_repr i @ rest) = Some (PyInt i, rest)"
proof -
  assume d: "delimited rest"
  have "list_all number_char (int_repr i)"
    using int_literal_repr [of i] by (auto simp: int_literal_def dest: number_run_chars)
  from span_token [OF this, of rest] d show ?thesis
    by (simp add: scan_number_def delimited_def int_literal_repr int_of_literal_repr)
qed

lemma scan_number_float:
  "delimited rest \<Longrightarrow> float_literal tok \<Longrightarrow>
   scan_number fp (tok @ rest) = Some (PyFloat (fp tok), rest)"
proof -
  assume d: "delimited rest" and f: "float_literal tok"
  then have "list_all number_char tok"
    by (auto simp: float_literal_def dest: number_run_chars)
  from span_token [OF this, of rest] d f show ?thesis
    by (auto simp: scan_number_def delimited_def float_literal_def int_literal_def)
qed

lemma skip_ws_indent: "skip_ws (newline_indent l @ t) = skip_ws t"
proof -
  have "\<And>x. x \<in> set (newline_indent l) \<Longrightarrow> json_ws x"
    by (auto simp: newline_indent_def json_ws_def)
  then show ?thesis
    unfolding skip_ws_def by (rule dropWhile_append2)
qed

lemma skip_ws_start: "\<not> json_ws c \<Longrightarrow> skip_ws (c # cs) = c # cs"
  by (simp add: skip_ws_def)

lemma skip_ws_space: "skip_ws (CHR '' '' # cs) = skip_ws cs"
  by (simp add: skip_ws_def json_ws_def)

lemma value_start_digit: "is_digit c \<Longrightarrow> value_start c"
  by (auto simp: value_start_def is_digit_def json_ws_def)

lemma delimited_simps:
  "delimited []" "delimited (CHR '','' # t)" "delimited (newline_indent l @ t)"
  by (simp_all add: delimited_def newline_indent_def number_char_def is_digit_def is_sign_def is_exp_def)

lemma int_repr_head: "\<exists>c cs. int_repr i = c # cs \<and> (c = CHR ''-'' \<or> is_digit c)"
proof (cases "i < 0")
  case True
  then show ?thesis by (simp add: int_repr_def)
next
  case False
  from decimal_shape [of "nat i"] obtain d ds where "decimal (nat i) = d # ds" "is_digit d"
    by auto
  with False show ?thesis by (simp add: int_repr_def)
qed

lemma float_head:
  "float_literal tok \<Longrightarrow> \<exists>c cs. tok = c # cs \<and> (c = CHR ''-'' \<or> is_digit c)"
  by (auto simp: float_literal_def dest: number_first)

lemma number_head_start: "c = CHR ''-'' \<or> is_digit c \<Longrightarrow> value_start c"
  by (auto simp: value_start_digit) (simp add: value_start_def json_ws_def)

lemma encode_head:
  "wf_py fr fp v \<Longrightarrow> \<exists>c cs. encode fr lvl v = c # cs \<and> value_start c"
proof (cases v)
  case PyNone
  then show ?thesis by (simp add: value_start_def json_ws_def)
next
  case (PyBool b)
  then show ?thesis by (simp add: value_start_def json_ws_def)
next
  case (PyInt i)
  with int_repr_head [of i] show ?thesis by (auto simp: number_head_start)
next
  case (PyFloat x)
  assume "wf_py fr fp v"
  with PyFloat have "float_literal (fr x)" by (simp add: float_round_trip_def)
  from float_head [OF this] PyFloat show ?thesis by (auto simp: number_head_start)
next
  case (PyStr s)
  then show ?thesis
    by (simp add: encode_basestring_ascii_def value_start_def json_ws_def dquote_def)
next
  case (PyList xs)
  then show ?thesis by (simp add: value_start_def json_ws_def)
next
  case (PyDict kvs)
  then show ?thesis by (simp add: value_start_def json_ws_def)
qed

lemma encode_items_head:
  "xs \<noteq> [] \<Longrightarrow> wf_items fr fp xs \<Longrightarrow> \<exists>c cs. encode_items fr lvl xs = c # cs \<and> value_start c"
proof (cases xs)
  case Nil
  assume "xs \<noteq> []"
  with Nil show ?thesis by simp
next
  case (Cons x ys)
  assume "wf_items fr fp xs"
  with Cons have "wf_py fr fp x" by simp
  from encode_head [OF this, of lvl] Cons show ?thesis by auto
qed

lemma encode_members_head:
  "kvs \<noteq> [] \<Longrightarrow> \<exists>cs. encode_members fr lvl kvs = dquote # cs"
  by (cases kvs) (auto simp: encode_basestring_ascii_def)

lemma number_head_dispatch:
  assumes "c = CHR ''-'' \<or> is_digit c"
  shows "c \<noteq> dquote" "c \<noteq> CHR ''[''" "c \<noteq> CHR ''{''"
    "\<not> prefix ''null'' (c # cs)" "\<not> prefix ''true'' (c # cs)" "\<not> prefix ''false'' (c # cs)"
  using assms by (auto simp: is_digit_def dquote_def)

lemma scan_once_number:
  assumes "c = CHR ''-'' \<or> is_digit c"
  shows "scan_once fp (Suc n) (c # cs) = scan_number fp (c # cs)"
  by (simp only: scan_once.simps list.case number_head_dispatch [OF assms] if_False)

lemma scan_once_string:
  "scan_once fp (Suc n) (dquote # r) =
     (case scanstring r of None \<Rightarrow> None | Some (t, r') \<Rightarrow> Some (PyStr t, r'))"
  by (simp only: scan_once.simps list.case simp_thms if_True)

lemma bracket_facts:
  "CHR ''['' \<noteq> dquote" "CHR ''{'' \<noteq> dquote" "CHR ''{'' \<noteq> CHR ''[''"
  "CHR '':'' \<noteq> dquote" "\<not> json_ws dquote" "\<not> json_ws (CHR '':'')" "\<not> json_ws (CHR '','')"
  "\<not> json_ws (CHR '']'')" "\<not> json_ws (CHR ''}'')" "dquote \<noteq> CHR ''}''"
  "CHR '','' \<noteq> CHR '']''" "CHR '','' \<noteq> CHR ''}''"
  by (simp_all add: dquote_def json_ws_def)

lemma scan_once_array:
  assumes "value_start d"
  shows "scan_once fp (Suc n) (CHR ''['' # newline_indent l @ d # r1) =
     (case JSONArray fp n (d # r1) of None \<Rightarrow> None | Some (xs, r') \<Rightarrow> Some (PyList xs, r'))"
proof -
  from assms have d: "\<not> json_ws d" "d \<noteq> CHR '']''" by (simp_all add: value_start_def)
  have sk: "skip_ws (newline_indent l @ d # r1) = d # r1"
    by (simp only: skip_ws_indent skip_ws_start [OF d(1)])
  show ?thesis
    by (simp only: scan_once.simps list.case bracket_facts simp_thms if_True if_False sk d)
qed

lemma scan_once_empty_array: "scan_once fp (Suc n) (''[]'' @ rest) = Some (PyList [], rest)"
proof -
  have sk: "skip_ws (CHR '']'' # rest) = CHR '']'' # rest"
    by (rule skip_ws_start) (rule bracket_facts)
  show ?thesis
    by (simp only: append_Cons append_Nil scan_once.simps list.case bracket_facts simp_thms
        if_True if_False sk)
qed

lemma scan_once_object:
  "scan_once fp (Suc n) (CHR ''{'' # newline_indent l @ dquote # r1) =
     (case JSONObject fp n (dquote # r1) of None \<Rightarrow> None | Some (kvs, r') \<Rightarrow> Some (PyDict kvs, r'))"
proof -
  have sk: "skip_ws (newline_indent l @ dquote # r1) = dquote # r1"
    by (simp only: skip_ws_indent skip_ws_start [OF bracket_facts(5)])
  show ?thesis
    by (simp only: scan_once.simps list.case bracket_facts simp_thms if_True if_False sk)
qed

lemma scan_once_empty_object: "scan_once fp (Suc n) (''{}'' @ rest) = Some (PyDict [], rest)"
proof -
  have sk: "skip_ws (CHR ''}'' # rest) = CHR ''}'' # rest"
    by (rule skip_ws_start) (rule bracket_facts)
  show ?thesis
    by (simp only: append_Cons append_Nil scan_once.simps list.case bracket_facts simp_thms
        if_True if_False sk)
qed

lemma scan_once_literals:
  "scan_once fp (Suc n) (''null'' @ rest) = Some (PyNone, rest)"
  "scan_once fp (Suc n) (''true'' @ rest) = Some (PyBool True, rest)"
  "scan_once fp (Suc n) (''false'' @ rest) = Some (PyBool False, rest)"
  by (simp_all add: dquote_def)

lemma JSONArray_last:
  assumes "scan_once fp n s = Some (v, newline_indent l @ CHR '']'' # r')"
  shows "JSONArray fp (Suc n) s = Some ([v], r')"
proof -
  have sk: "skip_ws (newline_indent l @ CHR '']'' # r') = CHR '']'' # r'"
    by (simp only: skip_ws_indent skip_ws_start [OF bracket_facts(8)])
  show ?thesis
    by (simp only: JSONArray.simps assms option.case prod.case sk list.case simp_thms if_True)
qed

lemma JSONArray_more:
  assumes "scan_once fp n s = Some (v, CHR '','' # newline_indent l @ d # t)"
    and "value_start d" and "JSONArray fp n (d # t) = Some (vs, r'')"
  shows "JSONArray fp (Suc n) s = Some (v # vs, r'')"
proof -
  from assms(2) have d: "\<not> json_ws d" by (simp add: value_start_def)
  have sk: "skip_ws (CHR '','' # newline_indent l @ d # t) = CHR '','' # newline_indent l @ d # t"
    by (rule skip_ws_start) (rule bracket_facts)
  have sk2: "skip_ws (newline_indent l @ d # t) = d # t"
    by (simp only: skip_ws_indent skip_ws_start [OF d])
  show ?thesis
    by (simp only: JSONArray.simps assms(1) assms(3) option.case prod.case sk sk2 list.case
        simp_thms if_True if_False bracket_facts)
qed

lemma JSONObject_key:
  assumes k: "list_all is_scalar k" and d: "value_start d"
  shows "JSONObject fp (Suc n) (encode_basestring_ascii k @ CHR '':'' # CHR '' '' # d # t) =
        (case scan_once fp n (d # t) of
           None \<Rightarrow> None
         | Some (v, r3) \<Rightarrow>
             (case skip_ws r3 of
                [] \<Rightarrow> None
              | e # r4 \<Rightarrow>
                  if e = CHR ''}'' then Some ([(k, v)], r4)
                  else if e = CHR '','' then
                    (case JSONObject fp n (skip_ws r4) of
                       None \<Rightarrow> None
                     | Some (kvs, r5) \<Rightarrow> Some ((k, v) # kvs, r5))
                  else None))"
proof -
  have e: "encode_basestring_ascii k @ CHR '':'' # CHR '' '' # d # t =
      dquote # concat (map escape_char k) @ dquote # CHR '':'' # CHR '' '' # d # t"
    by (simp add: encode_basestring_ascii_def)
  have sk: "skip_ws (CHR '':'' # CHR '' '' # d # t) = CHR '':'' # CHR '' '' # d # t"
    by (rule skip_ws_start) (rule bracket_facts)
  have sv: "skip_ws (CHR '' '' # d # t) = d # t"
    using d by (simp add: skip_ws_space skip_ws_start value_start_def)
  show ?thesis
    by (simp only: e JSONObject.simps list.case simp_thms if_False if_True
        scanstring_escaped [OF k] option.case prod.case sk sv)
qed

lemma JSONObject_last:
  assumes "list_all is_scalar k" "value_start d"
    and "scan_once fp n (d # t) = Some (v, newline_indent l @ CHR ''}'' # r')"
  shows "JSONObject fp (Suc n) (encode_basestring_ascii k @ CHR '':'' # CHR '' '' # d # t) =
     Some ([(k, v)], r')"
proof -
  have sk: "skip_ws (newline_indent l @ CHR ''}'' # r') = CHR ''}'' # r'"
    by (simp only: skip_ws_indent skip_ws_start [OF bracket_facts(9)])
  show ?thesis
    by (simp only: JSONObject_key [OF assms(1) assms(2)] assms(3) option.case prod.case sk
        list.case simp_thms if_True)
qed

lemma JSONObject_more:
  assumes "list_all is_scalar k" "value_start d"
    and "scan_once fp n (d # t) = Some (v, CHR '','' # newline_indent l @ dquote # u)"
    and "JSONObject fp n (dquote # u) = Some (kvs, r'')"
  shows "JSONObject fp (Suc n) (encode_basestring_ascii k @ CHR '':'' # CHR '' '' # d # t) =
     Some ((k, v) # kvs, r'')"
proof -
  have sk: "skip_ws (CHR '','' # newline_indent l @ dquote # u) =
      CHR '','' # newline_indent l @ dquote # u"
    by (rule skip_ws_start) (rule bracket_facts)
  have sk2: "skip_ws (newline_indent l @ dquote # u) = dquote # u"
    by (simp only: skip_ws_indent skip_ws_start [OF bracket_facts(5)])
  show ?thesis
    by (simp only: JSONObject_key [OF assms(1) assms(2)] assms(3) assms(4) option.case prod.case
        sk sk2 list.case simp_thms if_True if_False bracket_facts)
qed

lemma fuel_Suc: "Suc k \<le> n \<Longrightarrow> \<exists>m. n = Suc m \<and> k \<le> m"
  by (cases n) simp_all

lemma scan_encode:
  "\<forall>lvl n rest. wf_py fr fp v \<longrightarrow> need v \<le> n \<longrightarrow> delimited rest \<longrightarrow>
     scan_once fp n (encode fr lvl v @ rest) = Some (v, rest)"
  "\<forall>lvl l n rest. xs \<noteq> [] \<longrightarrow> wf_items fr fp xs \<longrightarrow> need_items xs \<le> n \<longrightarrow>
     JSONArray fp n (encode_items fr lvl xs @ newline_indent l @ CHR '']'' # rest) = Some (xs, rest)"
  "\<forall>lvl l n rest. kvs \<noteq> [] \<longrightarrow> wf_members fr fp kvs \<longrightarrow> need_members kvs \<le> n \<longrightarrow>
     JSONObject fp n (encode_members fr lvl kvs @ newline_indent l @ CHR ''}'' # rest) = Some (kvs, rest)"
proof (induction v and xs and kvs rule: need_need_items_need_members.induct)
  case 1
  show ?case
  proof (intro allI impI)
    fix lvl :: nat and n rest
    assume "need PyNone \<le> n"
    then obtain m where "n = Suc m" using fuel_Suc [of 0 n] by auto
    then show "scan_once fp n (encode fr lvl PyNone @ rest) = Some (PyNone, rest)"
      by (simp only: encode.simps scan_once_literals)
  qed
next
  case (2 b)
  show ?case
  proof (intro allI impI)
    fix lvl :: nat and n rest
    assume "need (PyBool b) \<le> n"
    then obtain m where "n = Suc m" using fuel_Suc [of 0 n] by auto
    then show "scan_once fp n (encode fr lvl (PyBool b) @ rest) = Some (PyBool b, rest)"
      by (cases b) (simp_all only: encode.simps scan_once_literals if_True if_False)
  qed
next
  case (3 i)
  show ?case
  proof (intro allI impI)
    fix lvl :: nat and n rest
    assume "need (PyInt i) \<le> n" and d: "delimited rest"
    then obtain m where n: "n = Suc m" using fuel_Suc [of 0 n] by auto
    from int_repr_head [of i] obtain c cs where h: "int_repr i = c # cs" "c = CHR ''-'' \<or> is_digit c"
      by auto
    have "scan_once fp (Suc m) (c # cs @ rest) = scan_number fp (c # cs @ rest)"
      using h(2) by (rule scan_once_number)
    then have "scan_once fp n (int_repr i @ rest) = scan_number fp (int_repr i @ rest)"
      by (simp add: n h(1))
    with scan_number_int [OF d, of fp i]
    show "scan_once fp n (encode fr lvl (PyInt i) @ rest) = Some (PyInt i, rest)"
      by (simp only: encode.simps)
  qed
next
  case (4 x)
  show ?case
  proof (intro allI impI)
    fix lvl :: nat and n rest
    assume w: "wf_py fr fp (PyFloat x)" and "need (PyFloat x) \<le> n" and d: "delimited rest"
    then obtain m where n: "n = Suc m" using fuel_Suc [of 0 n] by auto
    from w have f: "float_literal (fr x)" and v: "fp (fr x) = x"
      by (simp_all add: float_round_trip_def)
    from float_head [OF f] obtain c cs where h: "fr x = c # cs" "c = CHR ''-'' \<or> is_digit c"
      by auto
    have "scan_once fp (Suc m) (c # cs @ rest) = scan_number fp (c # cs @ rest)"
      using h(2) by (rule scan_once_number)
    then have "scan_once fp n (fr x @ rest) = scan_number fp (fr x @ rest)"
      by (simp add: n h(1))
    with scan_number_float [OF d f, of fp] v
    show "scan_once fp n (encode fr lvl (PyFloat x) @ rest) = Some (PyFloat x, rest)"
      by (simp only: encode.simps)
  qed
next
  case (5 s)
  show ?case
  proof (intro allI impI)
    fix lvl :: nat and n rest
    assume w: "wf_py fr fp (PyStr s)" and "need (PyStr s) \<le> n"
    then obtain m where n: "n = Suc m" using fuel_Suc [of 0 n] by auto
    from w have sc: "list_all is_scalar s" by simp
    have e: "encode fr lvl (PyStr s) @ rest = dquote # concat (map escape_char s) @ dquote # rest"
      by (simp add: encode_basestring_ascii_def)
    show "scan_once fp n (encode fr lvl (PyStr s) @ rest) = Some (PyStr s, rest)"
      by (simp only: e n scan_once_string scanstring_escaped [OF sc] option.case prod.case)
  qed
next
  case (6 xs)
  show ?case
  proof (intro allI impI)
    fix lvl :: nat and n rest
    assume w: "wf_py fr fp (PyList xs)" and nd: "need (PyList xs) \<le> n"
    then obtain m where n: "n = Suc m" and m: "need_items xs \<le> m"
      using fuel_Suc [of "need_items xs" n] by auto
    show "scan_once fp n (encode fr lvl (PyList xs) @ rest) = Some (PyList xs, rest)"
    proof (cases "xs = []")
      case True
      then show ?thesis
        by (simp only: encode.simps simp_thms if_True n scan_once_empty_array)
    next
      case False
      from w have wi: "wf_items fr fp xs" by simp
      from encode_items_head [OF False wi, of "Suc lvl"] obtain d r where
        h: "encode_items fr (Suc lvl) xs = d # r" "value_start d" by auto
      from "6.IH" False wi m
      have "JSONArray fp m (encode_items fr (Suc lvl) xs @ newline_indent lvl @ CHR '']'' # rest) =
          Some (xs, rest)"
        by blast
      then have a: "JSONArray fp m (d # r @ newline_indent lvl @ CHR '']'' # rest) = Some (xs, rest)"
        by (simp add: h(1))
      have e: "encode fr lvl (PyList xs) @ rest =
          CHR ''['' # newline_indent (Suc lvl) @ d # r @ newline_indent lvl @ CHR '']'' # rest"
        using False by (simp add: h(1))
      show ?thesis
        by (simp only: e n scan_once_array [OF h(2)] a option.case prod.case)
    qed
  qed
next
  case (7 kvs)
  show ?case
  proof (intro allI impI)
    fix lvl :: nat and n rest
    assume w: "wf_py fr fp (PyDict kvs)" and nd: "need (PyDict kvs) \<le> n"
    then obtain m where n: "n = Suc m" and m: "need_members kvs \<le> m"
      using fuel_Suc [of "need_members kvs" n] by auto
    show "scan_once fp n (encode fr lvl (PyDict kvs) @ rest) = Some (PyDict kvs, rest)"
    proof (cases "kvs = []")
      case True
      then show ?thesis
        by (simp only: encode.simps simp_thms if_True n scan_once_empty_object)
    next
      case False
      from w have wi: "wf_members fr fp kvs" by simp
      from encode_members_head [OF False, of fr "Suc lvl"] obtain r where
        h: "encode_members fr (Suc lvl) kvs = dquote # r" by auto
      from "7.IH" False wi m
      have "JSONObject fp m (encode_members fr (Suc lvl) kvs @ newline_indent lvl @ CHR ''}'' # rest) =
          Some (kvs, rest)"
        by blast
      then have a: "JSONObject fp m (dquote # r @ newline_indent lvl @ CHR ''}'' # rest) = Some (kvs, rest)"
        by (simp add: h)
      have e: "encode fr lvl (PyDict kvs) @ rest =
          CHR ''{'' # newline_indent (Suc lvl) @ dquote # r @ newline_indent lvl @ CHR ''}'' # rest"
        using False by (simp add: h)
      show ?thesis
        by (simp only: e n scan_once_object a option.case prod.case)
    qed
  qed
next
  case 8
  show ?case by simp
next
  case (9 x xs)
  show ?case
  proof (intro allI impI)
    fix lvl l :: nat and n rest
    assume w: "wf_items fr fp (x # xs)" and nd: "need_items (x # xs) \<le> n"
    then obtain m where n: "n = Suc m" and m: "need x + need_items xs \<le> m"
      using fuel_Suc [of "need x + need_items xs" n] by auto
    from w have wx: "wf_py fr fp x" and wxs: "wf_items fr fp xs" by simp_all
    from m have mx: "need x \<le> m" and mxs: "need_items xs \<le> m" by simp_all
    show "JSONArray fp n (encode_items fr lvl (x # xs) @ newline_indent l @ CHR '']'' # rest) =
        Some (x # xs, rest)"
    proof (cases "xs = []")
      case True
      from "9.IH"(1) wx mx delimited_simps(3)
      have "scan_once fp m (encode fr lvl x @ newline_indent l @ CHR '']'' # rest) =
          Some (x, newline_indent l @ CHR '']'' # rest)"
        by blast
      from JSONArray_last [OF this] True show ?thesis
        by (simp add: n)
    next
      case False
      from encode_items_head [OF False wxs, of lvl] obtain d r where
        h: "encode_items fr lvl xs = d # r" "value_start d" by auto
      let ?tail = "r @ newline_indent l @ CHR '']'' # rest"
      from "9.IH"(1) wx mx delimited_simps(2)
      have s1: "scan_once fp m (encode fr lvl x @ CHR '','' # newline_indent lvl @ d # ?tail) =
          Some (x, CHR '','' # newline_indent lvl @ d # ?tail)"
        by blast
      from "9.IH"(2) False wxs mxs
      have "JSONArray fp m (encode_items fr lvl xs @ newline_indent l @ CHR '']'' # rest) =
          Some (xs, rest)"
        by blast
      then have s2: "JSONArray fp m (d # ?tail) = Some (xs, rest)"
        by (simp add: h(1))
      from JSONArray_more [OF s1 h(2) s2] False show ?thesis
        by (simp add: n h(1))
    qed
  qed
next
  case 10
  show ?case by simp
next
  case (11 k v kvs)
  show ?case
  proof (intro allI impI)
    fix lvl l :: nat and n rest
    assume w: "wf_members fr fp ((k, v) # kvs)" and nd: "need_members ((k, v) # kvs) \<le> n"
    then obtain m where n: "n = Suc m" and m: "need v + need_members kvs \<le> m"
      using fuel_Suc [of "need v + need_members kvs" n] by auto
    from w have wk: "list_all is_scalar k" and wv: "wf_py fr fp v" and wkvs: "wf_members fr fp kvs"
      by simp_all
    from m have mv: "need v \<le> m" and mkvs: "need_members kvs \<le> m" by simp_all
    from encode_head [OF wv, of lvl] obtain d t where
      hv: "encode fr lvl v = d # t" "value_start d" by auto
    show "JSONObject fp n (encode_members fr lvl ((k, v) # kvs) @ newline_indent l @ CHR ''}'' # rest) =
        Some ((k, v) # kvs, rest)"
    proof (cases "kvs = []")
      case True
      from "11.IH"(1) wv mv delimited_simps(3)
      have "scan_once fp m (encode fr lvl v @ newline_indent l @ CHR ''}'' # rest) =
          Some (v, newline_indent l @ CHR ''}'' # rest)"
        by blast
      then have "scan_once fp m (d # t @ newline_indent l @ CHR ''}'' # rest) =
          Some (v, newline_indent l @ CHR ''}'' # rest)"
        by (simp add: hv(1))
      from JSONObject_last [OF wk hv(2) this] True show ?thesis
        by (simp add: n hv(1))
    next
      case False
      from encode_members_head [OF False, of fr lvl] obtain u where
        h: "encode_members fr lvl kvs = dquote # u" by auto
      let ?tail = "u @ newline_indent l @ CHR ''}'' # rest"
      from "11.IH"(1) wv mv delimited_simps(2)
      have "scan_once fp m (encode fr lvl v @ CHR '','' # newline_indent lvl @ dquote # ?tail) =
          Some (v, CHR '','' # newline_indent lvl @ dquote # ?tail)"
        by blast
      then have s1: "scan_once fp m (d # t @ CHR '','' # newline_indent lvl @ dquote # ?tail) =
          Some (v, CHR '','' # newline_indent lvl @ dquote # ?tail)"
        by (simp add: hv(1))
      from "11.IH"(2) False wkvs mkvs
      have "JSONObject fp m (encode_members fr lvl kvs @ newline_indent l @ CHR ''}'' # rest) =
          Some (kvs, rest)"
        by blast
      then have s2: "JSONObject fp m (dquote # ?tail) = Some (kvs, rest)"
        by (simp add: h)
      from JSONObject_more [OF wk hv(2) s1 s2] False show ?thesis
        by (simp add: n hv(1) h)
    qed
  qed
qed

lemma length_newline_indent: "length (newline_indent l) = Suc (2 * l)"
  by (simp add: newline_indent_def)

lemma encode_nonempty: "wf_py fr fp v \<Longrightarrow> 1 \<le> length (encode fr lvl v)"
  using encode_head [of fr fp v lvl] by auto

lemma need_bound:
  "\<forall>lvl. wf_py fr fp v \<longrightarrow> need v \<le> length (encode fr lvl v)"
  "\<forall>lvl. wf_items fr fp xs \<longrightarrow> need_items xs \<le> Suc (length (encode_items fr lvl xs))"
  "\<forall>lvl. wf_members fr fp kvs \<longrightarrow> need_members kvs \<le> Suc (length (encode_members fr lvl kvs))"
proof (induction v and xs and kvs rule: need_need_items_need_members.induct)
  case 1
  show ?case by simp
next
  case (2 b)
  show ?case by simp
next
  case (3 i)
  show ?case using encode_nonempty [of fr fp "PyInt i"] by simp
next
  case (4 x)
  show ?case using encode_nonempty [of fr fp "PyFloat x"] by simp
next
  case (5 s)
  show ?case by (simp add: encode_basestring_ascii_def)
next
  case (6 xs)
  show ?case
  proof (intro allI impI)
    fix lvl assume "wf_py fr fp (PyList xs)"
    then have "wf_items fr fp xs" by simp
    with "6.IH" have "need_items xs \<le> Suc (length (encode_items fr (Suc lvl) xs))" by blast
    then show "need (PyList xs) \<le> length (encode fr lvl (PyList xs))"
      by (simp add: length_newline_indent)
  qed
next
  case (7 kvs)
  show ?case
  proof (intro allI impI)
    fix lvl assume "wf_py fr fp (PyDict kvs)"
    then have "wf_members fr fp kvs" by simp
    with "7.IH" have "need_members kvs \<le> Suc (length (encode_members fr (Suc lvl) kvs))" by blast
    then show "need (PyDict kvs) \<le> length (encode fr lvl (PyDict kvs))"
      by (simp add: length_newline_indent)
  qed
next
  case 8
  show ?case by simp
next
  case (9 x xs)
  show ?case
  proof (intro allI impI)
    fix lvl assume w: "wf_items fr fp (x # xs)"
    then have wx: "wf_py fr fp x" and wxs: "wf_items fr fp xs" by simp_all
    from "9.IH"(1) wx have a: "need x \<le> length (encode fr lvl x)" by blast
    from "9.IH"(2) wxs have b: "need_items xs \<le> Suc (length (encode_items fr lvl xs))" by blast
    from a b show "need_items (x # xs) \<le> Suc (length (encode_items fr lvl (x # xs)))"
      by (cases "xs = []") (simp_all add: length_newline_indent)
  qed
next
  case 10
  show ?case by simp
next
  case (11 k v kvs)
  show ?case
  proof (intro allI impI)
    fix lvl assume w: "wf_members fr fp ((k, v) # kvs)"
    then have wv: "wf_py fr fp v" and wkvs: "wf_members fr fp kvs" by simp_all
    from "11.IH"(1) wv have a: "need v \<le> length (encode fr lvl v)" by blast
    from "11.IH"(2) wkvs have b: "need_members kvs \<le> Suc (length (encode_members fr lvl kvs))" by blast
    from a b show "need_members ((k, v) # kvs) \<le> Suc (length (encode_members fr lvl ((k, v) # kvs)))"
      by (cases "kvs = []") (simp_all add: length_newline_indent)
  qed
qed

lemma loads_dumps: "wf_py fr fp obj \<Longrightarrow> loads fp (dumps fr obj) = Some obj"
proof -
  assume w: "wf_py fr fp obj"
  from encode_head [OF w, of 0] obtain c cs where h: "encode fr 0 obj = c # cs" "value_start c"
    by auto
  then have sk: "skip_ws (encode fr 0 obj) = encode fr 0 obj"
    by (simp add: skip_ws_start value_start_def)
  from need_bound(1) w have "need obj \<le> length (encode fr 0 obj)" by blast
  with scan_encode(1) [of fr fp obj] w delimited_simps(1)
  have "scan_once fp (length (encode fr 0 obj)) (encode fr 0 obj @ []) = Some (obj, [])"
    by blast
  then have e: "scan_once fp (length (encode fr 0 obj)) (skip_ws (encode fr 0 obj)) = Some (obj, [])"
    by (simp add: sk)
  have n: "skip_ws [] = []" by (simp add: skip_ws_def)
  show ?thesis
    by (simp only: loads_def dumps_def e option.case prod.case n simp_thms if_True)
qed

lemma utf8_decode_scalar: "list_all is_scalar (utf8_decode s)"
  by (induction s rule: utf8_decode.induct)
    (simp_all add: Let_def scalar_or_replacement_def is_scalar_def)

lemma ascii_scalar: "list_all is_scalar (ascii s)"
proof -
  have "(of_char c :: nat) < 256" for c :: char
    by (rule nat_of_char_less_256)
  then have "is_scalar (of_char c)" for c :: char
    using order_less_trans [of "of_char c" 256 "0xD800 :: nat"] by (simp add: is_scalar_def)
  then show ?thesis by (simp add: ascii_def list_all_iff)
qed

lemma wf_py_str: "wf_py fr fp (py_str s)"
  by (simp add: py_str_def utf8_decode_scalar)

lemma wf_py_box: "wf_py fr fp (py_box b)"
  by (simp add: py_box_def ascii_scalar)

lemma wf_py_detection:
  "wf_py fr fp (py_detection d) = float_round_trip fr fp (confidence d)"
  by (simp add: py_detection_def ascii_scalar wf_py_str wf_py_box)

lemma wf_py_detections:
  "wf_items fr fp (map py_detection ds) = list_all (float_round_trip fr fp) (map confidence ds)"
  by (induction ds) (simp_all add: wf_py_detection)

lemma wf_py_location:
  "wf_py fr fp (py_location l) =
     (float_round_trip fr fp (latitude l) \<and> float_round_trip fr fp (longitude l))"
  by (simp add: py_location_def ascii_scalar wf_py_str)

lemma wf_py_incident:
  "wf_py fr fp (py_incident i) =
     list_all (float_round_trip fr fp)
       (map confidence (incident.detected_weapons i) @
        [latitude (incident.location i), longitude (incident.location i)])"
  by (simp add: py_incident_def ascii_scalar wf_py_str wf_py_detections wf_py_location)

lemma wf_py_incidents:
  "wf_py fr fp (py_incidents incs) = list_all (float_round_trip fr fp) (stored_floats incs)"
proof -
  have "wf_items fr fp (map py_incident incs) = list_all (float_round_trip fr fp) (stored_floats incs)"
    by (induction incs) (simp_all add: stored_floats_def wf_py_incident)
  then show ?thesis by (simp add: py_incidents_def)
qed

text \<open>
  Claim C6. The JSON export is the serialisation of the whole stored incident list, and
  parsing the exported document gives back a list of as many objects as there are
  incidents, each the Python value of its incident with every field as stored; taken
  of Python's float functions is that the text of each stored float is a JSON float and
  is read back as that float.
\<close>

theorem json_export_round_trip:
  "list_all (float_round_trip float_repr float_parse) (stored_floats (incidents s)) \<Longrightarrow>
   (\<exists>objs. loads float_parse (export_json float_repr s) = Some (PyList objs) \<and>
      length objs = length (incidents s) \<and>
      objs = map py_incident (incidents s))"
proof -
  assume "list_all (float_round_trip float_repr float_parse) (stored_floats (incidents s))"
  then have "wf_py float_repr float_parse (py_incidents (incidents s))"
    by (simp only: wf_py_incidents)
  then have "loads float_parse (dumps float_repr (py_incidents (incidents s))) =
      Some (py_incidents (incidents s))"
    by (rule loads_dumps)
  then show ?thesis
    by (simp add: export_json_def py_incidents_def)
qed

lemma example_float_literals:
  "float_literal ''0.91''" "float_literal ''-1.2921''" "float_literal ''36.8219''"
  by (simp_all add: float_literal_def is_digit_def is_exp_def is_sign_def)

theorem json_export_round_trip_witness:
  "list_all (float_round_trip example_float_repr example_float_parse)
     (stored_floats (incidents (run (Some example_detector) () example_first_visit))) \<and>
   stored_floats (incidents (run (Some example_detector) () example_first_visit)) =
     [91 / 100, 91 / 100, - 12921 / 10000, 368219 / 10000] \<and>
   loads example_float_parse
     (export_json example_float_repr (run (Some example_detector) () example_first_visit)) =
     Some (PyList [py_incident (example_incident ''Nairobi'')])"
proof -
  have f: "stored_floats (incidents (run (Some example_detector) () example_first_visit)) =
     [91 / 100, 91 / 100, - 12921 / 10000, 368219 / 10000]"
    by (simp add: example_run stored_floats_def example_incident_def make_incident_def
        example_analysis_def example_rifle_def example_knife_def example_location_def)
  have h: "list_all (float_round_trip example_float_repr example_float_parse)
     (stored_floats (incidents (run (Some example_detector) () example_first_visit)))"
    by (simp add: f float_round_trip_def example_float_repr_def example_float_parse_def
        example_float_literals)
  from json_export_round_trip [OF h] f h show ?thesis
    by (simp add: example_run)
qed

end
